theory Spec2Isabelle
  imports Main
begin

section \<open>The macOS \<open>pkgutil\<close> execution module\<close>

text \<open>
  A shallow embedding of \<^verbatim>\<open>salt/modules/mac_pkgutil.py\<close>. The module is an adapter:
  each function formats a command line, hands it to a collaborator and parses the text
  that comes back. The collaborators (command execution, the file system, the URI parser,
  the host's clock settings) are not part of the module; they are the fields of a
  \<open>host\<close> record, arbitrary in every theorem. Python strings are modelled as
  \<open>string\<close>, a \<open>char\<close> standing for a code point below 256.
\<close>

subsection \<open>Exceptions\<close>

text \<open>
  \<open>ValueError\<close> is raised by two built-ins here: \<^verbatim>\<open>dict(seq)\<close> on an element whose
  length is not 2 (``dictionary update sequence element #i has length n; 2 is required'')
  and \<^verbatim>\<open>int(s)\<close> on a string that is not an integer literal (``invalid literal for
  int()'') or has more digits than the interpreter allows (``Exceeds the limit (l digits)
  for integer string conversion: value has n digits''). The payload keeps the data of the
  message instead of its rendering.
\<close>

datatype value_error =
    DictUpdateLength nat nat
  | InvalidIntLiteral string
  | ExceedsDigitLimit nat nat

datatype error =
    SaltInvocationError string
  | CommandExecutionError string
  | ValueError value_error
  | KeyError string
  | OSError string

subsection \<open>Built-ins: \<open>str.splitlines\<close>, \<open>str.split\<close>, \<open>dict\<close>, \<open>int\<close>\<close>

text \<open>
  \<^verbatim>\<open>str.splitlines()\<close>: a line ends at a line boundary (LF, CR, CR LF, VT, FF, FS, GS,
  RS and NEL, U+0085, among the code points below 256); the boundaries are dropped; text
  after the last boundary is a line only when it is not empty. So \<^verbatim>\<open>"a\n".splitlines() == ["a"]\<close>,
  \<^verbatim>\<open>"".splitlines() == []\<close> and \<^verbatim>\<open>"a\n\nb".splitlines() == ["a", "", "b"]\<close>.
\<close>

definition is_linebreak :: "char \<Rightarrow> bool" where
  "is_linebreak c \<longleftrightarrow>
     c \<in> set [CHR 0x0A, CHR 0x0D, CHR 0x0B, CHR 0x0C, CHR 0x1C, CHR 0x1D, CHR 0x1E,
              CHR 0x85]"

fun splitlines_from :: "string \<Rightarrow> string \<Rightarrow> string list" where
  "splitlines_from cur [] = (if cur = [] then [] else [rev cur])"
| "splitlines_from cur (c # cs) =
     (if is_linebreak c then
        rev cur #
          (if c = CHR 0x0D then
             (case cs of
                [] \<Rightarrow> splitlines_from [] cs
              | d # ds \<Rightarrow> if d = CHR 0x0A then splitlines_from [] ds
                         else splitlines_from [] cs)
           else splitlines_from [] cs)
      else splitlines_from (c # cur) cs)"

definition splitlines :: "string \<Rightarrow> string list" where
  "splitlines s = splitlines_from [] s"

text \<open>
  \<^verbatim>\<open>s.split(sep)\<close> with a one-character separator and no limit: the string is cut at
  every occurrence, so the result has one more element than \<open>s\<close> has separators.
\<close>

fun str_split :: "char \<Rightarrow> string \<Rightarrow> string list" where
  "str_split sep [] = [[]]"
| "str_split sep (c # cs) =
     (if c = sep then [] # str_split sep cs
      else (case str_split sep cs of
              [] \<Rightarrow> [[c]]
            | p # ps \<Rightarrow> (c # p) # ps))"

text \<open>
  \<^verbatim>\<open>dict(seq)\<close>: the elements are taken in order; element number \<open>i\<close> must have
  length 2 and is stored as key and value (a later key overwrites an earlier one);
  any other length raises \<open>ValueError\<close>.
\<close>

fun dict_update :: "nat \<Rightarrow> (string \<rightharpoonup> string) \<Rightarrow> string list list \<Rightarrow> error + (string \<rightharpoonup> string)" where
  "dict_update i d [] = Inr d"
| "dict_update i d (e # es) =
     (if length e = 2 then dict_update (Suc i) (d(e ! 0 \<mapsto> e ! 1)) es
      else Inl (ValueError (DictUpdateLength i (length e))))"

definition dict :: "string list list \<Rightarrow> error + (string \<rightharpoonup> string)" where
  "dict seq = dict_update 0 Map.empty seq"

text \<open>
  \<^verbatim>\<open>int(s)\<close> in base 10 reads \<open>s\<close> from the left: whitespace (space, the controls
  TAB to CR, and NEL and the no-break space among the code points from 128); an optional
  sign; the longest run of digits and underscores, which must be digits with single
  underscores between them; whitespace up to the end. The number of digits is checked
  against the interpreter's limit \<open>lim\<close> (\<^verbatim>\<open>sys.get_int_max_str_digits()\<close>, 0 for none,
  never applied up to 640 digits) once the run is read and before the rest of the string
  is looked at.
\<close>

definition is_space :: "char \<Rightarrow> bool" where
  "is_space c \<longleftrightarrow>
     c \<in> set [CHR 0x20, CHR 0x09, CHR 0x0A, CHR 0x0B, CHR 0x0C, CHR 0x0D, CHR 0x85, CHR 0xA0]"

definition is_digit :: "char \<Rightarrow> bool" where
  "is_digit c \<longleftrightarrow> 48 \<le> (of_char c :: nat) \<and> (of_char c :: nat) \<le> 57"

definition digit_val :: "char \<Rightarrow> int" where
  "digit_val c = int (of_char c) - 48"

fun digits_ok :: "string \<Rightarrow> bool" where
  "digits_ok [] = False"
| "digits_ok [c] = is_digit c"
| "digits_ok (c # d # cs) =
     (is_digit c \<and> (if d = CHR ''_'' then digits_ok cs else digits_ok (d # cs)))"

definition digits_val :: "string \<Rightarrow> int" where
  "digits_val ds = foldl (\<lambda>a c. 10 * a + digit_val c) 0 (filter (\<lambda>c. c \<noteq> CHR ''_'') ds)"

definition py_int :: "nat \<Rightarrow> string \<Rightarrow> error + int" where
  "py_int lim s =
     (let t = dropWhile is_space s;
          neg = (take 1 t = ''-'');
          body = (if take 1 t = ''-'' \<or> take 1 t = ''+'' then drop 1 t else t);
          ds = takeWhile (\<lambda>c. is_digit c \<or> c = CHR ''_'') body;
          rest = dropWhile (\<lambda>c. is_digit c \<or> c = CHR ''_'') body;
          nd = length (filter is_digit ds)
      in if \<not> digits_ok ds then Inl (ValueError (InvalidIntLiteral s))
         else if 640 < nd \<and> 0 < lim \<and> lim < nd then Inl (ValueError (ExceedsDigitLimit lim nd))
         else if \<not> list_all is_space rest then Inl (ValueError (InvalidIntLiteral s))
         else Inr (if neg then - digits_val ds else digits_val ds))"

subsection \<open>Built-ins: \<open>time.strftime\<close>\<close>

text \<open>
  \<^verbatim>\<open>time.struct_time\<close> with the fields the format uses, and \<^verbatim>\<open>time.strftime\<close> for
  the directives \<^verbatim>\<open>%Y %m %d %H %M %S %%\<close>: the year in decimal, the other fields in
  decimal padded with zeros to two digits, any other character copied. (The C libraries
  differ on \<^verbatim>\<open>%Y\<close> for a year below 1000; the statements below are about the years from
  1000.)
\<close>

record struct_time =
  tm_year :: int
  tm_mon :: nat
  tm_mday :: nat
  tm_hour :: nat
  tm_min :: nat
  tm_sec :: nat

definition digit_char :: "nat \<Rightarrow> char" where
  "digit_char n = char_of (48 + n mod 10)"

fun show_nat :: "nat \<Rightarrow> string" where
  "show_nat n = (if n < 10 then [digit_char n] else show_nat (n div 10) @ [digit_char n])"

declare show_nat.simps [simp del]

definition show_int :: "int \<Rightarrow> string" where
  "show_int i = (if i < 0 then CHR ''-'' # show_nat (nat (- i)) else show_nat (nat i))"

definition zfill2 :: "nat \<Rightarrow> string" where
  "zfill2 n = (if n < 10 then CHR ''0'' # show_nat n else show_nat n)"

definition directive :: "char \<Rightarrow> struct_time \<Rightarrow> string" where
  "directive d tm =
     (if d = CHR ''Y'' then show_int (tm_year tm)
      else if d = CHR ''m'' then zfill2 (tm_mon tm)
      else if d = CHR ''d'' then zfill2 (tm_mday tm)
      else if d = CHR ''H'' then zfill2 (tm_hour tm)
      else if d = CHR ''M'' then zfill2 (tm_min tm)
      else if d = CHR ''S'' then zfill2 (tm_sec tm)
      else if d = CHR ''%'' then [CHR ''%'']
      else [CHR ''%'', d])"

fun strftime :: "string \<Rightarrow> struct_time \<Rightarrow> string" where
  "strftime [] tm = []"
| "strftime (c # fmt) tm =
     (if c = CHR ''%'' then
        (case fmt of
           [] \<Rightarrow> [c]
         | d # fmt' \<Rightarrow> directive d tm @ strftime fmt' tm)
      else c # strftime fmt tm)"

subsection \<open>The host: the collaborators of the module\<close>

text \<open>
  The module reaches the machine only through
  \<^item> \<^verbatim>\<open>salt.utils.mac_utils.execute_return_result(cmd)\<close>, which runs a command and
    returns its standard output or raises;
  \<^item> \<^verbatim>\<open>salt.utils.mac_utils.execute_return_success(cmd)\<close>, which runs a command and
    reports success as a boolean or raises;
  \<^item> \<^verbatim>\<open>os.path.exists(path)\<close>;
  \<^item> \<^verbatim>\<open>urllib.parse.urlparse(source).scheme\<close>, which may raise on a malformed URL;
  \<^item> \<^verbatim>\<open>time.localtime(secs)\<close>, which depends on the host's time zone and raises on a
    time stamp out of its range;
  \<^item> the interpreter's limit on the digits of an integer literal,
    \<^verbatim>\<open>sys.get_int_max_str_digits()\<close>, 0 when there is none.
  None of them is defined in the module, so each is a parameter. \<open>'w\<close> is the state of the
  machine (its receipt database, its files); running a command may change it.
\<close>

record 'w host =
  execute_return_result :: "string \<Rightarrow> 'w \<Rightarrow> (error + string) \<times> 'w"
  execute_return_success :: "string \<Rightarrow> 'w \<Rightarrow> (error + bool) \<times> 'w"
  os_path_exists :: "string \<Rightarrow> 'w \<Rightarrow> bool"
  urlparse_scheme :: "string \<Rightarrow> error + string"
  time_localtime :: "int \<Rightarrow> 'w \<Rightarrow> error + struct_time"
  int_max_str_digits :: nat

text \<open>
  The state threaded through the module's functions is the machine together with the
  journal of the calls made on it so far, in order: the journal is what a statement such
  as ``the installer is not invoked'' is about.
\<close>

datatype call =
    Exec_result string
  | Exec_success string
  | Path_exists string

record 'w sys =
  world :: 'w
  calls :: "call list"

definition run_result :: "'w host \<Rightarrow> string \<Rightarrow> 'w sys \<Rightarrow> (error + string) \<times> 'w sys" where
  "run_result h cmd s =
     (case execute_return_result h cmd (world s) of
        (r, w') \<Rightarrow> (r, \<lparr>world = w', calls = calls s @ [Exec_result cmd]\<rparr>))"

definition run_success :: "'w host \<Rightarrow> string \<Rightarrow> 'w sys \<Rightarrow> (error + bool) \<times> 'w sys" where
  "run_success h cmd s =
     (case execute_return_success h cmd (world s) of
        (r, w') \<Rightarrow> (r, \<lparr>world = w', calls = calls s @ [Exec_success cmd]\<rparr>))"

definition path_exists :: "'w host \<Rightarrow> string \<Rightarrow> 'w sys \<Rightarrow> bool \<times> 'w sys" where
  "path_exists h path s =
     (os_path_exists h path (world s), s\<lparr>calls := calls s @ [Path_exists path]\<rparr>)"

subsection \<open>The module's functions\<close>

text \<open>\<^verbatim>\<open>list_()\<close>, here \<open>list_pkgs\<close>: the lines of \<^verbatim>\<open>pkgutil --pkgs\<close>.\<close>

definition list_pkgs :: "'w host \<Rightarrow> 'w sys \<Rightarrow> (error + string list) \<times> 'w sys" where
  "list_pkgs h s =
     (let cmd = ''pkgutil --pkgs'' in
      case run_result h cmd s of
        (Inl e, s1) \<Rightarrow> (Inl e, s1)
      | (Inr ret, s1) \<Rightarrow> (Inr (splitlines ret), s1))"

text \<open>\<^verbatim>\<open>is_installed(package_id)\<close>: \<^verbatim>\<open>package_id in list_()\<close>.\<close>

definition is_installed :: "'w host \<Rightarrow> string \<Rightarrow> 'w sys \<Rightarrow> (error + bool) \<times> 'w sys" where
  "is_installed h package_id s =
     (case list_pkgs h s of
        (Inl e, s1) \<Rightarrow> (Inl e, s1)
      | (Inr pkgs, s1) \<Rightarrow> (Inr (package_id \<in> set pkgs), s1))"

text \<open>
  \<^verbatim>\<open>info(package_id)\<close>: the command line is formatted first; the command runs only when
  the package is installed, and its output is parsed by
  \<^verbatim>\<open>dict(item.split(':') for item in result.splitlines())\<close>.
\<close>

definition info :: "'w host \<Rightarrow> string \<Rightarrow> 'w sys \<Rightarrow> (error + (string \<rightharpoonup> string)) \<times> 'w sys" where
  "info h package_id s =
     (let cmd = ''pkgutil --pkg-info '' @ package_id in
      case is_installed h package_id s of
        (Inl e, s1) \<Rightarrow> (Inl e, s1)
      | (Inr installed, s1) \<Rightarrow>
          if installed then
            (case run_result h cmd s1 of
               (Inl e, s2) \<Rightarrow> (Inl e, s2)
             | (Inr result, s2) \<Rightarrow>
                 (dict (map (str_split CHR '':'') (splitlines result)), s2))
          else
            (let msg = ''Package ID '' @ package_id @ '' is not installed''
             in (Inl (SaltInvocationError msg), s1)))"

text \<open>\<^verbatim>\<open>_install_from_path(path)\<close>.\<close>

definition install_from_path :: "'w host \<Rightarrow> string \<Rightarrow> 'w sys \<Rightarrow> (error + bool) \<times> 'w sys" where
  "install_from_path h path s =
     (case path_exists h path s of
        (ex, s1) \<Rightarrow>
          if \<not> ex then
            (let msg = ''File not found: '' @ path
             in (Inl (SaltInvocationError msg), s1))
          else
            (let cmd = ''installer -pkg '' @ path @ '' -target /''
             in run_success h cmd s1))"

text \<open>\<^verbatim>\<open>install(source, package_id)\<close>.\<close>

definition install :: "'w host \<Rightarrow> string \<Rightarrow> string \<Rightarrow> 'w sys \<Rightarrow> (error + bool) \<times> 'w sys" where
  "install h source package_id s =
     (case is_installed h package_id s of
        (Inl e, s1) \<Rightarrow> (Inl e, s1)
      | (Inr installed, s1) \<Rightarrow>
          if installed then (Inr True, s1)
          else
            (case urlparse_scheme h source of
               Inl e \<Rightarrow> (Inl e, s1)
             | Inr scheme \<Rightarrow>
                 if \<not> scheme = [] then
                   (let msg = ''Unsupported scheme for source uri: '' @ scheme
                    in (Inl (SaltInvocationError msg), s1))
                 else
                   (case install_from_path h source s1 of
                      (Inl e, s2) \<Rightarrow> (Inl e, s2)
                    | (Inr _, s2) \<Rightarrow> is_installed h package_id s2)))"

text \<open>
  \<^verbatim>\<open>install_time(package_id, convert=None)\<close> returns an integer or a string; \<open>convert\<close>
  is \<open>None\<close> or a boolean, tested by \<^verbatim>\<open>if not convert\<close>.
\<close>

datatype pyval = IntV int | StrV string

definition time_fmt :: string where
  "time_fmt = ''%Y-%m-%d %H:%M:%S''"

definition install_time :: "'w host \<Rightarrow> string \<Rightarrow> bool option \<Rightarrow> 'w sys \<Rightarrow> (error + pyval) \<times> 'w sys" where
  "install_time h package_id convert s =
     (case info h package_id s of
        (Inl e, s1) \<Rightarrow> (Inl e, s1)
      | (Inr pkginfo, s1) \<Rightarrow>
          (case pkginfo ''install-time'' of
             None \<Rightarrow> (Inl (KeyError ''install-time''), s1)
           | Some v \<Rightarrow>
               (case py_int (int_max_str_digits h) v of
                  Inl e \<Rightarrow> (Inl e, s1)
                | Inr install_datetime \<Rightarrow>
                    if \<not> (convert = Some True) then (Inr (IntV install_datetime), s1)
                    else
                      (case time_localtime h install_datetime (world s1) of
                         Inl e \<Rightarrow> (Inl e, s1)
                       | Inr tm \<Rightarrow> (Inr (StrV (strftime time_fmt tm)), s1)))))"

text \<open>\<^verbatim>\<open>forget(package_id)\<close>.\<close>

definition forget :: "'w host \<Rightarrow> string \<Rightarrow> 'w sys \<Rightarrow> (error + bool) \<times> 'w sys" where
  "forget h package_id s =
     (let cmd = ''pkgutil --forget '' @ package_id in
      case run_success h cmd s of
        (Inl e, s1) \<Rightarrow> (Inl e, s1)
      | (Inr _, s1) \<Rightarrow>
          (case is_installed h package_id s1 of
             (Inl e, s2) \<Rightarrow> (Inl e, s2)
           | (Inr installed, s2) \<Rightarrow> (Inr (\<not> installed), s2)))"

text \<open>\<^verbatim>\<open>version(package_id)\<close>.\<close>

definition version :: "'w host \<Rightarrow> string \<Rightarrow> 'w sys \<Rightarrow> (error + string) \<times> 'w sys" where
  "version h package_id s =
     (case info h package_id s of
        (Inl e, s1) \<Rightarrow> (Inl e, s1)
      | (Inr ret, s1) \<Rightarrow>
          (case ret ''version'' of
             None \<Rightarrow> (Inl (KeyError ''version''), s1)
           | Some v \<Rightarrow> (Inr v, s1)))"

subsection \<open>An example machine\<close>

text \<open>
  A concrete host on which the functions can be run. Its state is the receipt database
  (package id and the text \<^verbatim>\<open>pkgutil --pkg-info\<close> prints for it), the installer
  packages on its disk (path, id and info text of the receipt they leave) and whether
  \<^verbatim>\<open>pkgutil\<close> works at all. A command that exits with a failure status makes
  \<open>execute_return_result\<close> raise; it makes \<open>execute_return_success\<close> return
  \<open>False\<close>, or raise as well when the machine is \<open>strict\<close>. Its clock is UTC.
\<close>

record mac =
  receipts :: "(string \<times> string) list"
  packages :: "(string \<times> string \<times> string) list"
  pkgutil_ok :: bool
  strict :: bool

definition terminated :: "string list \<Rightarrow> string" where
  "terminated ls = concat (map (\<lambda>l. l @ [CHR 0x0A]) ls)"

definition mac_result :: "string \<Rightarrow> mac \<Rightarrow> (error + string) \<times> mac" where
  "mac_result cmd w =
     (if \<not> pkgutil_ok w then (Inl (CommandExecutionError (''Command Failed: '' @ cmd)), w)
      else if cmd = ''pkgutil --pkgs'' then (Inr (terminated (map fst (receipts w))), w)
      else
        (case find (\<lambda>r. cmd = ''pkgutil --pkg-info '' @ fst r) (receipts w) of
           Some r \<Rightarrow> (Inr (snd r), w)
         | None \<Rightarrow> (Inl (CommandExecutionError (''Command Failed: '' @ cmd)), w)))"

definition mac_success :: "string \<Rightarrow> mac \<Rightarrow> (error + bool) \<times> mac" where
  "mac_success cmd w =
     (case find (\<lambda>k. cmd = ''installer -pkg '' @ fst k @ '' -target /'') (packages w) of
        Some k \<Rightarrow> (Inr True, w\<lparr>receipts := receipts w @ [snd k]\<rparr>)
      | None \<Rightarrow>
          (case (if pkgutil_ok w
                 then find (\<lambda>r. cmd = ''pkgutil --forget '' @ fst r) (receipts w)
                 else None) of
             Some r \<Rightarrow> (Inr True, w\<lparr>receipts := filter (\<lambda>r'. fst r' \<noteq> fst r) (receipts w)\<rparr>)
           | None \<Rightarrow>
               if strict w then (Inl (CommandExecutionError (''Command Failed: '' @ cmd)), w)
               else (Inr False, w)))"

definition mac_exists :: "string \<Rightarrow> mac \<Rightarrow> bool" where
  "mac_exists path w \<longleftrightarrow> path \<in> set (map fst (packages w))"

definition is_scheme_char :: "char \<Rightarrow> bool" where
  "is_scheme_char c \<longleftrightarrow>
     (let n = (of_char c :: nat)
      in (97 \<le> n \<and> n \<le> 122) \<or> (65 \<le> n \<and> n \<le> 90) \<or> (48 \<le> n \<and> n \<le> 57)
         \<or> c \<in> set ''+-.'')"

definition mac_scheme :: "string \<Rightarrow> error + string" where
  "mac_scheme url =
     (let pre = takeWhile (\<lambda>c. c \<noteq> CHR '':'') url
      in if length pre < length url \<and> pre \<noteq> [] \<and> \<not> is_digit (hd pre) \<and> list_all is_scheme_char pre
         then Inr pre else Inr [])"

definition utc_time :: "int \<Rightarrow> struct_time" where
  "utc_time t =
     (let days = t div 86400; secs = t mod 86400;
          z = days + 719468; era = z div 146097; doe = z mod 146097;
          yoe = (doe - doe div 1460 + doe div 36524 - doe div 146096) div 365;
          doy = doe - (365 * yoe + yoe div 4 - yoe div 100);
          mp = (5 * doy + 2) div 153;
          d = doy - (153 * mp + 2) div 5 + 1;
          m = (if mp < 10 then mp + 3 else mp - 9);
          y = yoe + era * 400 + (if m \<le> 2 then 1 else 0)
      in \<lparr>tm_year = y, tm_mon = nat m, tm_mday = nat d,
          tm_hour = nat (secs div 3600), tm_min = nat (secs mod 3600 div 60),
          tm_sec = nat (secs mod 60)\<rparr>)"

definition mac_localtime :: "int \<Rightarrow> mac \<Rightarrow> error + struct_time" where
  "mac_localtime t w =
     (if - (2 ^ 55) \<le> t \<and> t \<le> 2 ^ 55 then Inr (utc_time t)
      else Inl (OSError ''Value too large for defined data type''))"

definition mac_host :: "mac host" where
  "mac_host =
     \<lparr>execute_return_result = mac_result, execute_return_success = mac_success,
      os_path_exists = mac_exists, urlparse_scheme = mac_scheme,
      time_localtime = mac_localtime, int_max_str_digits = 4300\<rparr>"

definition core_info :: string where
  "core_info = terminated
     [''package-id: com.apple.pkg.Core'', ''version: 10.11.6'', ''install-time: 1466026385'']"

definition tool_info :: string where
  "tool_info = terminated
     [''package-id: com.example.tool'', ''version: 2.0'', ''location: Volumes/Disk:Tools'']"

definition beta_info :: string where
  "beta_info = terminated
     [''package-id: com.example.beta'', ''version: 0.9'', ''install-time: yesterday'']"

definition app_info :: string where
  "app_info = terminated
     [''package-id: com.example.app'', ''version: 1.0'', ''install-time: 1500000000'']"

definition far_info :: string where
  "far_info = terminated
     [''package-id: com.example.far'', ''version: 3.1'', ''install-time: 253402300800'']"

definition a_mac :: mac where
  "a_mac =
     \<lparr>receipts = [(''com.apple.pkg.Core'', core_info), (''com.example.tool'', tool_info),
                  (''com.example.beta'', beta_info)],
      packages = [(''/tmp/app.pkg'', ''com.example.app'', app_info)],
      pkgutil_ok = True, strict = False\<rparr>"

definition far_mac :: mac where
  "far_mac = a_mac\<lparr>receipts := [(''com.example.far'', far_info)]\<rparr>"

definition boot :: "'w \<Rightarrow> 'w sys" where
  "boot w = \<lparr>world = w, calls = []\<rparr>"

text \<open>A machine whose \<^verbatim>\<open>pkgutil\<close> prints the given text, whatever it is asked.\<close>

definition printing_host :: "string \<Rightarrow> unit host" where
  "printing_host out =
     \<lparr>execute_return_result = (\<lambda>cmd w. (Inr out, w)),
      execute_return_success = (\<lambda>cmd w. (Inr True, w)),
      os_path_exists = (\<lambda>path w. False),
      urlparse_scheme = (\<lambda>url. Inr []),
      time_localtime = (\<lambda>t w. Inr (utc_time t)), int_max_str_digits = 4300\<rparr>"

subsection \<open>The shape of a formatted time\<close>

text \<open>
  A string has the shape \<^verbatim>\<open>YYYY-MM-DD hh:mm:ss\<close> when replacing each of its digits
  by \<open>9\<close> gives \<^verbatim>\<open>9999-99-99 99:99:99\<close>. The fields of a \<open>struct_time\<close> other than
  the year are in the ranges \<^verbatim>\<open>time.localtime\<close> documents.
\<close>

definition ymd_hms :: "string \<Rightarrow> bool" where
  "ymd_hms s \<longleftrightarrow> map (\<lambda>c. if is_digit c then CHR ''9'' else c) s = ''9999-99-99 99:99:99''"

definition clock_fields :: "struct_time \<Rightarrow> bool" where
  "clock_fields tm \<longleftrightarrow>
     1 \<le> tm_mon tm \<and> tm_mon tm \<le> 12 \<and> 1 \<le> tm_mday tm \<and> tm_mday tm \<le> 31 \<and>
     tm_hour tm \<le> 23 \<and> tm_min tm \<le> 59 \<and> tm_sec tm \<le> 61"

definition two_digits :: "nat \<Rightarrow> string" where
  "two_digits n = [digit_char (n div 10), digit_char n]"

subsection \<open>Text cut into lines\<close>

text \<open>
  A text written as lines with their terminators, followed by a last piece without one.
  The cut is the one \<^verbatim>\<open>str.splitlines\<close> makes when no line and not the last piece holds
  a line boundary, every terminator is a single boundary or CR LF, and a lone CR is not
  followed by LF.
\<close>

definition is_terminator :: "string \<Rightarrow> bool" where
  "is_terminator t \<longleftrightarrow> t = [CHR 0x0D, CHR 0x0A] \<or> (length t = 1 \<and> is_linebreak (hd t))"

fun join_cut :: "(string \<times> string) list \<Rightarrow> string \<Rightarrow> string" where
  "join_cut [] rest = rest"
| "join_cut (p # ps) rest = fst p @ snd p @ join_cut ps rest"

fun well_cut :: "(string \<times> string) list \<Rightarrow> string \<Rightarrow> bool" where
  "well_cut [] rest = list_all (\<lambda>c. \<not> is_linebreak c) rest"
| "well_cut (p # ps) rest =
     (list_all (\<lambda>c. \<not> is_linebreak c) (fst p) \<and> is_terminator (snd p) \<and>
      \<not> (snd p = [CHR 0x0D] \<and> take 1 (join_cut ps rest) = [CHR 0x0A]) \<and>
      well_cut ps rest)"

definition lines_of :: "(string \<times> string) list \<Rightarrow> string \<Rightarrow> string list" where
  "lines_of ps rest = map fst ps @ (if rest = [] then [] else [rest])"

subsection \<open>Observing an outcome\<close>

text \<open>
  The error a call ended with, if it raised, and the entry of a key in the dictionary a
  call returned.
\<close>

definition raised :: "(error + 'a) \<times> 's \<Rightarrow> error option" where
  "raised r = (case fst r of Inl e \<Rightarrow> Some e | Inr _ \<Rightarrow> None)"

definition entry :: "string \<Rightarrow> (error + (string \<rightharpoonup> string)) \<times> 's \<Rightarrow> error + string option" where
  "entry k r = (case fst r of Inl e \<Rightarrow> Inl e | Inr d \<Rightarrow> Inr (d k))"

section \<open>Properties of the built-ins\<close>

lemma str_split_length: "length (str_split sep s) = Suc (count_list s sep)"
  by (induction s) (auto split: list.splits)

lemma str_split_no_sep: "sep \<notin> set s \<Longrightarrow> str_split sep s = [s]"
  by (induction s) auto

lemma str_split_one_sep:
  "count_list s sep = 1 \<Longrightarrow>
   str_split sep s = [takeWhile (\<lambda>c. c \<noteq> sep) s, tl (dropWhile (\<lambda>c. c \<noteq> sep) s)]"
proof (induction s)
  case Nil
  then show ?case by simp
next
  case (Cons c cs)
  show ?case
  proof (cases "c = sep")
    case True
    with Cons.prems have "count_list cs sep = 0" by simp
    then have "sep \<notin> set cs" by (simp add: count_list_0_iff)
    with True show ?thesis by (simp add: str_split_no_sep)
  next
    case False
    with Cons show ?thesis by simp
  qed
qed

lemma dict_update_all_pairs:
  "\<forall>e\<in>set es. length e = 2 \<Longrightarrow>
   dict_update i d es = Inr (foldl (\<lambda>d e. d(e ! 0 \<mapsto> e ! 1)) d es)"
  by (induction es arbitrary: i d) simp_all

lemma dict_update_bad:
  "\<exists>e\<in>set es. length e \<noteq> 2 \<Longrightarrow>
   \<exists>j n. n \<noteq> 2 \<and> dict_update i d es = Inl (ValueError (DictUpdateLength j n))"
  by (induction es arbitrary: i d) auto

lemma char_of_48: "char_of (48::nat) = CHR ''0''"
  by code_simp

lemma is_digit_digit_char: "is_digit (digit_char n)"
proof -
  have "n mod 10 < 10" by simp
  then have "(48 + n mod 10) mod 256 = 48 + n mod 10" by simp
  then show ?thesis
    by (simp add: is_digit_def digit_char_def)
qed

lemma zfill2_digits: "n < 100 \<Longrightarrow> zfill2 n = [digit_char (n div 10), digit_char n]"
proof (cases "n < 10")
  case True
  then show ?thesis by (simp add: zfill2_def show_nat.simps [of n] digit_char_def char_of_48)
next
  case False
  assume "n < 100"
  with False have "n div 10 < 10" by simp
  with False show ?thesis by (simp add: zfill2_def show_nat.simps [of n] show_nat.simps [of "n div 10"])
qed

lemma show_nat_ge10: "\<not> n < 10 \<Longrightarrow> show_nat n = show_nat (n div 10) @ [digit_char n]"
  by (simp add: show_nat.simps [of n])

lemma show_nat_lt10: "n < 10 \<Longrightarrow> show_nat n = [digit_char n]"
  by (simp add: show_nat.simps [of n])

lemma show_nat_2: 
  assumes "10 \<le> n" "n < 100" shows "show_nat n = [digit_char (n div 10), digit_char n]"
proof -
  have "show_nat n = show_nat (n div 10) @ [digit_char n]"
    using assms by (intro show_nat_ge10) simp
  moreover have "show_nat (n div 10) = [digit_char (n div 10)]"
    using assms by (intro show_nat_lt10) simp
  ultimately show ?thesis by simp
qed

lemma show_nat_3:
  assumes "100 \<le> n" "n < 1000" 
  shows "show_nat n = [digit_char (n div 100), digit_char (n div 10), digit_char n]"
proof -
  have "show_nat n = show_nat (n div 10) @ [digit_char n]"
    using assms by (intro show_nat_ge10) simp
  moreover have "show_nat (n div 10) = [digit_char (n div 10 div 10), digit_char (n div 10)]"
    using assms by (intro show_nat_2) simp_all
  moreover have "n div 10 div 10 = n div 100"
    by (simp add: div_mult2_eq [symmetric])
  ultimately show ?thesis by simp
qed

lemma show_nat_4:
  assumes "1000 \<le> n" "n < 10000" 
  shows "show_nat n =
     [digit_char (n div 1000), digit_char (n div 100), digit_char (n div 10), digit_char n]"
proof -
  have "show_nat n = show_nat (n div 10) @ [digit_char n]"
    using assms by (intro show_nat_ge10) simp
  moreover have "show_nat (n div 10) =
      [digit_char (n div 10 div 100), digit_char (n div 10 div 10), digit_char (n div 10)]"
    using assms by (intro show_nat_3) simp_all
  moreover have "n div 10 div 10 = n div 100" "n div 10 div 100 = n div 1000"
    by (simp_all add: div_mult2_eq [symmetric])
  ultimately show ?thesis by simp
qed

lemma show_int_year:
  assumes "1000 \<le> y" "y \<le> 9999"
  shows "show_int y = [digit_char (nat y div 1000), digit_char (nat y div 100),
                       digit_char (nat y div 10), digit_char (nat y)]"
proof -
  have "show_int y = show_nat (nat y)"
    using assms by (simp add: show_int_def)
  moreover have "1000 \<le> nat y" "nat y < 10000"
    using assms by simp_all
  ultimately show ?thesis
    by (simp only: show_nat_4)
qed

lemma foldl_split_pairs:
  "\<forall>l\<in>set ls. count_list l sep = 1 \<Longrightarrow>
   foldl (\<lambda>d e. d(e ! 0 \<mapsto> e ! 1)) d (map (str_split sep) ls)
     = foldl (\<lambda>d l. d(takeWhile (\<lambda>c. c \<noteq> sep) l \<mapsto> tl (dropWhile (\<lambda>c. c \<noteq> sep) l))) d ls"
  by (induction ls arbitrary: d) (simp_all add: str_split_one_sep)

lemma dict_split_well_formed:
  assumes "\<forall>l\<in>set ls. count_list l sep = 1"
  shows "dict (map (str_split sep) ls)
     = Inr (foldl (\<lambda>d l. d(takeWhile (\<lambda>c. c \<noteq> sep) l \<mapsto> tl (dropWhile (\<lambda>c. c \<noteq> sep) l)))
              Map.empty ls)"
proof -
  have "\<forall>e\<in>set (map (str_split sep) ls). length e = 2"
    using assms by (simp add: str_split_length)
  then have "dict (map (str_split sep) ls)
      = Inr (foldl (\<lambda>d e. d(e ! 0 \<mapsto> e ! 1)) Map.empty (map (str_split sep) ls))"
    unfolding dict_def by (rule dict_update_all_pairs)
  with assms show ?thesis by (simp only: foldl_split_pairs)
qed

lemma dict_split_malformed:
  assumes "l \<in> set ls" and "count_list l sep \<noteq> 1"
  shows "\<exists>i n. n \<noteq> 2 \<and> dict (map (str_split sep) ls) = Inl (ValueError (DictUpdateLength i n))"
proof -
  have "length (str_split sep l) \<noteq> 2"
    using assms(2) by (simp add: str_split_length)
  with assms(1) have "\<exists>e\<in>set (map (str_split sep) ls). length e \<noteq> 2"
    by auto
  then show ?thesis
    unfolding dict_def by (rule dict_update_bad)
qed


lemma splitlines_from_rest:
  "list_all (\<lambda>c. \<not> is_linebreak c) t \<Longrightarrow>
   splitlines_from cur t = (if cur = [] \<and> t = [] then [] else [rev cur @ t])"
  by (induction t arbitrary: cur) simp_all

lemma splitlines_from_terminator:
  assumes "is_terminator t" and "\<not> (t = [CHR 0x0D] \<and> take 1 after = [CHR 0x0A])"
  shows "splitlines_from cur (t @ after) = rev cur # splitlines_from [] after"
proof (cases "t = [CHR 0x0D, CHR 0x0A]")
  case True
  then show ?thesis by (simp add: is_linebreak_def)
next
  case False
  with assms(1) obtain c where t: "t = [c]" and c: "is_linebreak c"
    by (cases t) (auto simp: is_terminator_def)
  show ?thesis
  proof (cases "c = CHR 0x0D")
    case True
    with assms(2) t show ?thesis
      by (cases after) (simp_all add: is_linebreak_def)
  next
    case False
    with t c show ?thesis by simp
  qed
qed

lemma splitlines_from_piece:
  assumes "list_all (\<lambda>c. \<not> is_linebreak c) l" and "is_terminator t"
      and "\<not> (t = [CHR 0x0D] \<and> take 1 after = [CHR 0x0A])"
  shows "splitlines_from cur (l @ t @ after) = (rev cur @ l) # splitlines_from [] after"
  using assms(1)
proof (induction l arbitrary: cur)
  case Nil
  show ?case using splitlines_from_terminator [OF assms(2,3)] by simp
next
  case (Cons c l)
  then show ?case by simp
qed

lemma splitlines_join_cut:
  "well_cut ps rest \<Longrightarrow> splitlines (join_cut ps rest) = lines_of ps rest"
proof (induction ps)
  case Nil
  then show ?case by (simp add: splitlines_def lines_of_def splitlines_from_rest)
next
  case (Cons p ps)
  then have "splitlines_from [] (fst p @ snd p @ join_cut ps rest)
      = (rev [] @ fst p) # splitlines_from [] (join_cut ps rest)"
    by (intro splitlines_from_piece) simp_all
  with Cons show ?case by (simp add: splitlines_def lines_of_def)
qed

lemma cut_exists: "\<exists>ps rest. out = join_cut ps rest \<and> well_cut ps rest"
proof (induction "length out" arbitrary: out rule: less_induct)
  case less
  let ?P = "\<lambda>c. \<not> is_linebreak c"
  let ?l = "takeWhile ?P out"
  have l: "list_all ?P ?l"
    by (auto simp: list_all_iff dest: set_takeWhileD)
  show ?case
  proof (cases "dropWhile ?P out")
    case Nil
    then have "out = ?l" by (metis append_Nil2 takeWhile_dropWhile_id)
    with l have "out = join_cut [] out \<and> well_cut [] out" by simp
    then show ?thesis by blast
  next
    case (Cons c after)
    then have c: "is_linebreak c"
      by (metis hd_dropWhile list.distinct(1) list.sel(1))
    from Cons have out: "out = ?l @ c # after"
      by (metis takeWhile_dropWhile_id)
    show ?thesis
    proof (cases "c = CHR 0x0D \<and> take 1 after = [CHR 0x0A]")
      case True
      then obtain after' where m: "after = CHR 0x0A # after'"
        by (cases after) auto
      have "length after' < length out"
        using out m by (metis add_Suc_right length_Cons length_append less_Suc_eq less_add_Suc2 trans_less_add2)
      from less [OF this] obtain ps rest where r: "after' = join_cut ps rest" "well_cut ps rest"
        by blast
      have "out = join_cut ((?l, [CHR 0x0D, CHR 0x0A]) # ps) rest"
        using out m r True by simp
      moreover have "well_cut ((?l, [CHR 0x0D, CHR 0x0A]) # ps) rest"
        using l r by (simp add: is_terminator_def)
      ultimately show ?thesis by blast
    next
      case False
      have "length after < length out"
        using out by (metis length_Cons length_append less_Suc_eq trans_less_add2)
      from less [OF this] obtain ps rest where r: "after = join_cut ps rest" "well_cut ps rest"
        by blast
      have "out = join_cut ((?l, [c]) # ps) rest"
        using out r by simp
      moreover have "well_cut ((?l, [c]) # ps) rest"
        using l r c False by (auto simp: is_terminator_def)
      ultimately show ?thesis by blast
    qed
  qed
qed

lemma is_digit_not_space: "is_digit c \<Longrightarrow> \<not> is_space c"
  by (auto simp: is_digit_def is_space_def)

lemma is_digit_not_mark:
  "is_digit c \<Longrightarrow> c \<noteq> CHR ''_'' \<and> c \<noteq> CHR ''+'' \<and> c \<noteq> CHR ''-''"
  by (auto simp: is_digit_def)

lemma is_space_not_mark: "is_space c \<Longrightarrow> c \<noteq> CHR ''_'' \<and> c \<noteq> CHR ''+'' \<and> c \<noteq> CHR ''-''"
  by (auto simp: is_space_def)

lemma show_nat_digits: "list_all is_digit (show_nat m)"
proof (induction m rule: show_nat.induct)
  case (1 n)
  show ?case
  proof (cases "n < 10")
    case True
    then show ?thesis by (simp add: show_nat_lt10 is_digit_digit_char)
  next
    case False
    with 1 show ?thesis by (simp add: show_nat_ge10 is_digit_digit_char)
  qed
qed

lemma show_nat_not_Nil: "show_nat m \<noteq> []"
  by (cases "m < 10") (simp_all add: show_nat_lt10 show_nat_ge10)

lemma digits_ok_all_digits: "ds \<noteq> [] \<Longrightarrow> list_all is_digit ds \<Longrightarrow> digits_ok ds"
  by (induction ds rule: digits_ok.induct) (auto dest: is_digit_not_mark)

lemma digits_ok_has_digit: "digits_ok ds \<Longrightarrow> \<exists>c\<in>set ds. is_digit c"
  by (induction ds rule: digits_ok.induct) auto

lemma digit_val_digit_char: "digit_val (digit_char n) = int (n mod 10)"
proof -
  have "n mod 10 < 10" by simp
  then have "(48 + n mod 10) mod 256 = 48 + n mod 10" by simp
  then show ?thesis by (simp add: digit_val_def digit_char_def)
qed

lemma foldl_show_nat:
  "foldl (\<lambda>a c. 10 * a + digit_val c) 0 (show_nat m) = int m"
proof (induction m rule: show_nat.induct)
  case (1 n)
  show ?case
  proof (cases "n < 10")
    case True
    then show ?thesis by (simp add: show_nat_lt10 digit_val_digit_char)
  next
    case False
    with 1 have "foldl (\<lambda>a c. 10 * a + digit_val c) 0 (show_nat (n div 10)) = int (n div 10)"
      by simp
    with False show ?thesis
      by (simp add: show_nat_ge10 digit_val_digit_char zdiv_int zmod_int)
  qed
qed

lemma foldl_zeros:
  "foldl (\<lambda>a c. 10 * a + digit_val c) 0 (replicate k CHR ''0'') = 0"
  by (induction k) (simp_all add: digit_val_def)

lemma filter_all_digits:
  "list_all is_digit ds \<Longrightarrow> filter (\<lambda>c. c \<noteq> CHR ''_'') ds = ds \<and> filter is_digit ds = ds"
  by (induction ds) (auto dest: is_digit_not_mark)

lemma zeros_show_nat_digits: "list_all is_digit (replicate k CHR ''0'' @ show_nat m)"
proof -
  have "is_digit CHR ''0''" by (simp add: is_digit_def)
  then have "list_all is_digit (replicate k CHR ''0'')"
    by (induction k) simp_all
  then show ?thesis by (simp add: show_nat_digits)
qed

lemma digits_val_decimal: "digits_val (replicate k CHR ''0'' @ show_nat m) = int m"
proof -
  have "list_all is_digit (replicate k CHR ''0'' @ show_nat m)"
    by (rule zeros_show_nat_digits)
  then show ?thesis
    by (simp add: digits_val_def filter_all_digits foldl_zeros foldl_show_nat)
qed

lemma dropWhile_spaces_before:
  "list_all is_space pre \<Longrightarrow> x \<noteq> [] \<Longrightarrow> \<not> is_space (hd x) \<Longrightarrow>
   dropWhile is_space (pre @ x @ post) = x @ post"
  by (induction pre) (auto simp: neq_Nil_conv)

lemma run_then_spaces:
  assumes "list_all (\<lambda>c. is_digit c \<or> c = CHR ''_'') z" and "list_all is_space post"
  shows "takeWhile (\<lambda>c. is_digit c \<or> c = CHR ''_'') (z @ post) = z"
    and "dropWhile (\<lambda>c. is_digit c \<or> c = CHR ''_'') (z @ post) = post"
proof -
  have p: "takeWhile (\<lambda>c. is_digit c \<or> c = CHR ''_'') post = []"
    "dropWhile (\<lambda>c. is_digit c \<or> c = CHR ''_'') post = post"
    using assms(2) by (cases post; auto dest: is_digit_not_space is_space_not_mark)+
  from assms(1) show "takeWhile (\<lambda>c. is_digit c \<or> c = CHR ''_'') (z @ post) = z"
    by (induction z) (simp_all add: p)
  from assms(1) show "dropWhile (\<lambda>c. is_digit c \<or> c = CHR ''_'') (z @ post) = post"
    by (induction z) (simp_all add: p)
qed

lemma py_int_unfold:
  assumes "dropWhile is_space s = t"
      and "(if take 1 t = ''-'' \<or> take 1 t = ''+'' then drop 1 t else t) = body"
      and "takeWhile (\<lambda>c. is_digit c \<or> c = CHR ''_'') body = ds"
      and "dropWhile (\<lambda>c. is_digit c \<or> c = CHR ''_'') body = rest"
  shows "py_int lim s =
     (if \<not> digits_ok ds then Inl (ValueError (InvalidIntLiteral s))
      else if 640 < length (filter is_digit ds) \<and> 0 < lim \<and> lim < length (filter is_digit ds)
        then Inl (ValueError (ExceedsDigitLimit lim (length (filter is_digit ds))))
      else if \<not> list_all is_space rest then Inl (ValueError (InvalidIntLiteral s))
      else Inr (if take 1 t = ''-'' then - digits_val ds else digits_val ds))"
  unfolding py_int_def Let_def assms ..

lemma py_int_literal:
  assumes pre: "list_all is_space pre" and post: "list_all is_space post"
      and sg: "sg \<in> set [[], ''+'', ''-'']"
      and zn: "z \<noteq> []" and zd: "list_all is_digit z"
      and lim: "lim = 0 \<or> length z \<le> max 640 lim"
  shows "py_int lim (pre @ sg @ z @ post) = Inr (if sg = ''-'' then - digits_val z else digits_val z)"
proof -
  obtain c z' where z: "z = c # z'" and c: "is_digit c"
    using zn zd by (cases z) auto
  have zr: "list_all (\<lambda>c. is_digit c \<or> c = CHR ''_'') z"
    using zd by (simp add: list_all_iff)
  have x: "sg @ z \<noteq> []" "\<not> is_space (hd (sg @ z))"
    using sg z is_digit_not_space [OF c] by (auto simp: is_space_def)
  have t: "dropWhile is_space (pre @ sg @ z @ post) = sg @ z @ post"
    using dropWhile_spaces_before [OF pre x, of post] by simp
  have neg: "take 1 (sg @ z @ post) = ''-'' \<longleftrightarrow> sg = ''-''"
    using sg z is_digit_not_mark [OF c] by auto
  have body: "(if take 1 (sg @ z @ post) = ''-'' \<or> take 1 (sg @ z @ post) = ''+''
               then drop 1 (sg @ z @ post) else sg @ z @ post) = z @ post"
    using sg z is_digit_not_mark [OF c] by auto
  have ok: "digits_ok z" using zn zd by (rule digits_ok_all_digits)
  have nd: "length (filter is_digit z) = length z"
    using filter_all_digits [OF zd] by simp
  have l: "\<not> (640 < length z \<and> 0 < lim \<and> lim < length z)"
    using lim by auto
  show ?thesis
    unfolding py_int_unfold [OF t body run_then_spaces [OF zr post]]
    using ok nd l post neg by simp
qed

lemma py_int_decimal:
  assumes "list_all is_space pre" and "list_all is_space post"
      and "sg \<in> set [[], ''+'', ''-'']"
      and "lim = 0 \<or> k + length (show_nat m) \<le> max 640 lim"
  shows "py_int lim (pre @ sg @ replicate k CHR ''0'' @ show_nat m @ post)
           = Inr (if sg = ''-'' then - int m else int m)"
proof -
  let ?z = "replicate k CHR ''0'' @ show_nat m"
  have "py_int lim (pre @ sg @ ?z @ post)
      = Inr (if sg = ''-'' then - digits_val ?z else digits_val ?z)"
    using assms by (intro py_int_literal zeros_show_nat_digits) (simp_all add: show_nat_not_Nil)
  then show ?thesis by (simp add: digits_val_decimal)
qed

lemma py_int_errors:
  "py_int lim v = Inl e \<Longrightarrow>
   e = ValueError (InvalidIntLiteral v) \<or> (\<exists>n. lim < n \<and> e = ValueError (ExceedsDigitLimit lim n))"
  by (auto simp: py_int_def Let_def split: if_splits)

lemma sign_cover: "set t \<subseteq> set ''+-'' \<union> set (if take 1 t = ''-'' \<or> take 1 t = ''+'' then drop 1 t else t)"
proof (cases t)
  case Nil
  then show ?thesis by simp
next
  case (Cons a list)
  then show ?thesis by (cases "a = CHR ''-'' \<or> a = CHR ''+''") auto
qed

lemma sign_dropped: "set (if take 1 t = ''-'' \<or> take 1 t = ''+'' then drop 1 t else t) \<subseteq> set t"
  using set_drop_subset [of 1 t] by (simp split: if_splits)

lemma py_int_not_literal:
  assumes "(\<exists>c\<in>set v. \<not> is_digit c \<and> \<not> is_space c \<and> c \<notin> set ''+-_'') \<or> \<not> (\<exists>c\<in>set v. is_digit c)"
  shows "\<exists>e. py_int lim v = Inl e"
proof (rule ccontr)
  assume "\<not> (\<exists>e. py_int lim v = Inl e)"
  then obtain n where n: "py_int lim v = Inr n" by (cases "py_int lim v") auto
  let ?P = "\<lambda>c. is_digit c \<or> c = CHR ''_''"
  define t where "t = dropWhile is_space v"
  define body where "body = (if take 1 t = ''-'' \<or> take 1 t = ''+'' then drop 1 t else t)"
  have u: "py_int lim v =
     (if \<not> digits_ok (takeWhile ?P body) then Inl (ValueError (InvalidIntLiteral v))
      else if 640 < length (filter is_digit (takeWhile ?P body)) \<and> 0 < lim
                \<and> lim < length (filter is_digit (takeWhile ?P body))
        then Inl (ValueError (ExceedsDigitLimit lim (length (filter is_digit (takeWhile ?P body)))))
      else if \<not> list_all is_space (dropWhile ?P body) then Inl (ValueError (InvalidIntLiteral v))
      else Inr (if take 1 t = ''-'' then - digits_val (takeWhile ?P body)
                else digits_val (takeWhile ?P body)))"
    by (rule py_int_unfold [OF t_def [symmetric] body_def [symmetric] refl refl])
  from n have ok: "digits_ok (takeWhile ?P body)" and sp: "list_all is_space (dropWhile ?P body)"
    unfolding u by (simp_all split: if_splits)
  have v: "v = takeWhile is_space v @ t" by (simp add: t_def)
  have tb: "set t \<subseteq> set ''+-'' \<union> set body"
    unfolding body_def by (rule sign_cover)
  have bt: "set body \<subseteq> set t"
    unfolding body_def by (rule sign_dropped)
  have b: "body = takeWhile ?P body @ dropWhile ?P body" by simp
  have all: "\<forall>c\<in>set v. is_digit c \<or> is_space c \<or> c \<in> set ''+-_''"
  proof
    fix c assume "c \<in> set v"
    then have "c \<in> set (takeWhile is_space v @ t)"
      using v by simp
    then have "c \<in> set (takeWhile is_space v) \<or> c \<in> set t"
      by simp
    then show "is_digit c \<or> is_space c \<or> c \<in> set ''+-_''"
    proof
      assume "c \<in> set (takeWhile is_space v)"
      then show ?thesis by (auto dest: set_takeWhileD)
    next
      assume "c \<in> set t"
      with tb have "c \<in> set ''+-'' \<or> c \<in> set body" by auto
      then show ?thesis
      proof
        assume "c \<in> set ''+-''" then show ?thesis by auto
      next
        assume "c \<in> set body"
        then have "c \<in> set (takeWhile ?P body @ dropWhile ?P body)"
          by simp
        then have "c \<in> set (takeWhile ?P body) \<or> c \<in> set (dropWhile ?P body)"
          unfolding set_append by simp
        then show ?thesis
          using sp by (auto simp: list_all_iff dest: set_takeWhileD)
      qed
    qed
  qed
  from digits_ok_has_digit [OF ok] obtain d where "d \<in> set (takeWhile ?P body)" "is_digit d"
    by blast
  then have "d \<in> set body" by (auto dest: set_takeWhileD)
  with bt have "d \<in> set t" by auto
  then have "d \<in> set v" unfolding t_def by (rule set_dropWhileD)
  with \<open>is_digit d\<close> all assms show False by blast
qed

lemma two_digits_zfill2: "n < 100 \<Longrightarrow> zfill2 n = two_digits n"
  by (simp add: zfill2_digits two_digits_def)

lemma strftime_fields:
  assumes "clock_fields tm"
  shows "strftime time_fmt tm =
     show_int (tm_year tm) @ ''-'' @ two_digits (tm_mon tm) @ ''-'' @ two_digits (tm_mday tm)
       @ '' '' @ two_digits (tm_hour tm) @ '':'' @ two_digits (tm_min tm)
       @ '':'' @ two_digits (tm_sec tm)"
proof -
  from assms have z: "zfill2 (tm_mon tm) = two_digits (tm_mon tm)"
    "zfill2 (tm_mday tm) = two_digits (tm_mday tm)"
    "zfill2 (tm_hour tm) = two_digits (tm_hour tm)"
    "zfill2 (tm_min tm) = two_digits (tm_min tm)"
    "zfill2 (tm_sec tm) = two_digits (tm_sec tm)"
    by (simp_all add: clock_fields_def two_digits_zfill2)
  show ?thesis
    by (simp add: time_fmt_def directive_def z)
qed

lemma show_nat_length: "10 ^ k \<le> n \<Longrightarrow> k < length (show_nat n)"
proof (induction k arbitrary: n)
  case 0
  then show ?case using show_nat_not_Nil [of n] by (cases "show_nat n") simp_all
next
  case (Suc k)
  have "(1::nat) \<le> 10 ^ k" by simp
  then have "(10::nat) \<le> 10 ^ Suc k" by simp
  then have "10 \<le> n" using Suc.prems by (rule order_trans)
  then have "\<not> n < 10" by simp
  moreover from Suc.prems have "10 ^ k \<le> n div 10"
    by (simp add: less_eq_div_iff_mult_less_eq mult.commute)
  ultimately show ?case
    using Suc.IH [of "n div 10"] by (simp add: show_nat_ge10)
qed

lemma ymd_hms_fields:
  "ymd_hms (y @ ''-'' @ two_digits a @ ''-'' @ two_digits b @ '' '' @ two_digits c @ '':''
            @ two_digits d @ '':'' @ two_digits e)
   \<longleftrightarrow> map (\<lambda>c. if is_digit c then CHR ''9'' else c) y = ''9999''"
proof -
  have sep: "\<not> is_digit CHR '' ''" "\<not> is_digit CHR '':''" "\<not> is_digit CHR ''-''"
    by (simp_all add: is_digit_def)
  show ?thesis
    by (auto simp: ymd_hms_def two_digits_def is_digit_digit_char sep append_eq_Cons_conv Cons_eq_append_conv)
qed

lemma year_shape:
  assumes "1000 \<le> y"
  shows "map (\<lambda>c. if is_digit c then CHR ''9'' else c) (show_nat (nat y)) = ''9999'' \<longleftrightarrow> y \<le> 9999"
proof
  assume m: "map (\<lambda>c. if is_digit c then CHR ''9'' else c) (show_nat (nat y)) = ''9999''"
  have "length (map (\<lambda>c. if is_digit c then CHR ''9'' else c) (show_nat (nat y))) = length ''9999''"
    using m by (rule arg_cong)
  then have l: "length (show_nat (nat y)) = 4" by simp
  show "y \<le> 9999"
  proof (rule ccontr)
    assume "\<not> y \<le> 9999"
    then have "10 ^ 4 \<le> nat y" by simp
    then have "4 < length (show_nat (nat y))" by (rule show_nat_length)
    with l show False by simp
  qed
next
  assume "y \<le> 9999"
  with assms have "show_nat (nat y) =
      [digit_char (nat y div 1000), digit_char (nat y div 100), digit_char (nat y div 10),
       digit_char (nat y)]"
    by (intro show_nat_4) simp_all
  then show "map (\<lambda>c. if is_digit c then CHR ''9'' else c) (show_nat (nat y)) = ''9999''"
    by (simp add: is_digit_digit_char)
qed

lemma strftime_from_1000:
  assumes "clock_fields tm" and "1000 \<le> tm_year tm"
  shows "strftime time_fmt tm =
           show_nat (nat (tm_year tm)) @ ''-'' @ two_digits (tm_mon tm) @ ''-''
             @ two_digits (tm_mday tm) @ '' '' @ two_digits (tm_hour tm) @ '':''
             @ two_digits (tm_min tm) @ '':'' @ two_digits (tm_sec tm)"
    and "ymd_hms (strftime time_fmt tm) \<longleftrightarrow> tm_year tm \<le> 9999"
    and "tm_year tm \<le> 9999 \<Longrightarrow>
         show_nat (nat (tm_year tm)) =
           [digit_char (nat (tm_year tm) div 1000), digit_char (nat (tm_year tm) div 100),
            digit_char (nat (tm_year tm) div 10), digit_char (nat (tm_year tm))]"
proof -
  have y: "show_int (tm_year tm) = show_nat (nat (tm_year tm))"
    using assms(2) by (simp add: show_int_def)
  show f: "strftime time_fmt tm =
           show_nat (nat (tm_year tm)) @ ''-'' @ two_digits (tm_mon tm) @ ''-''
             @ two_digits (tm_mday tm) @ '' '' @ two_digits (tm_hour tm) @ '':''
             @ two_digits (tm_min tm) @ '':'' @ two_digits (tm_sec tm)"
    unfolding strftime_fields [OF assms(1)] y ..
  show "ymd_hms (strftime time_fmt tm) \<longleftrightarrow> tm_year tm \<le> 9999"
    unfolding f ymd_hms_fields by (rule year_shape [OF assms(2)])
  show "show_nat (nat (tm_year tm)) =
           [digit_char (nat (tm_year tm) div 1000), digit_char (nat (tm_year tm) div 100),
            digit_char (nat (tm_year tm) div 10), digit_char (nat (tm_year tm))]"
    if "tm_year tm \<le> 9999"
    using assms(2) that by (intro show_nat_4) simp_all
qed

lemma char_of_digits:
  "char_of (48::nat) = CHR ''0''" "char_of (49::nat) = CHR ''1''" "char_of (50::nat) = CHR ''2''"
  "char_of (51::nat) = CHR ''3''" "char_of (52::nat) = CHR ''4''" "char_of (53::nat) = CHR ''5''"
  "char_of (54::nat) = CHR ''6''" "char_of (55::nat) = CHR ''7''" "char_of (56::nat) = CHR ''8''"
  "char_of (57::nat) = CHR ''9''"
  by code_simp+

lemma install_time_converted:
  assumes "entry ''install-time'' (info h p s) = Inr (Some v)"
      and "py_int (int_max_str_digits h) v = Inr n"
      and "time_localtime h n (world (snd (info h p s))) = Inr tm"
  shows "install_time h p (Some True) s = (Inr (StrV (strftime time_fmt tm)), snd (info h p s))"
proof -
  from assms(1) obtain pkginfo s1 where i: "info h p s = (Inr pkginfo, s1)"
    and v: "pkginfo ''install-time'' = Some v"
    by (cases "info h p s"; cases "fst (info h p s)") (auto simp: entry_def)
  with assms(2,3) show ?thesis by (simp add: install_time_def)
qed

section \<open>The journal of the installation check\<close>

lemma is_installed_journal:
  "is_installed h p s = (r, s1) \<Longrightarrow> calls s1 = calls s @ [Exec_result ''pkgutil --pkgs'']"
  by (auto simp: is_installed_def list_pkgs_def run_result_def Let_def split: prod.splits sum.splits)

section \<open>Listing and membership\<close>

text \<open>
  Claim C3, as amended. \<open>list_()\<close> returns the lines of the listing command's standard
  output as \<^verbatim>\<open>str.splitlines\<close> cuts them, in the order of the output and without
  filtering. Every output is, in one way, a sequence of lines free of line boundaries,
  each with its terminator (one boundary character, or CR LF; a CR alone is not followed
  by LF), and a last piece free of boundaries: the result is these lines, followed by
  the last piece when it is not empty. So an empty line of the output is an empty string
  of the result, and the command is run exactly once.
\<close>

theorem list_returns_lines:
  assumes "execute_return_result h ''pkgutil --pkgs'' (world s) = (Inr out, w1)"
  shows "(out = join_cut ps rest \<and> well_cut ps rest \<longrightarrow>
            list_pkgs h s =
              (Inr (lines_of ps rest),
               \<lparr>world = w1, calls = calls s @ [Exec_result ''pkgutil --pkgs'']\<rparr>)) \<and>
         (\<exists>ps' rest'. out = join_cut ps' rest' \<and> well_cut ps' rest')"
  using assms cut_exists [of out]
  by (auto simp: list_pkgs_def run_result_def splitlines_join_cut)

theorem list_returns_lines_witness:
  "list_pkgs mac_host (boot a_mac) =
     (Inr [''com.apple.pkg.Core'', ''com.example.tool'', ''com.example.beta''],
      \<lparr>world = a_mac, calls = [Exec_result ''pkgutil --pkgs'']\<rparr>) \<and>
   list_pkgs (printing_host [CHR ''a'', CHR 0x0D, CHR 0x0A, CHR ''b'', CHR 0x85, CHR 0x0A, CHR ''c''])
       (boot ()) =
     (Inr [''a'', ''b'', [], ''c''], \<lparr>world = (), calls = [Exec_result ''pkgutil --pkgs'']\<rparr>)"
proof -
  let ?ps = "[(''com.apple.pkg.Core'', [CHR 0x0A]), (''com.example.tool'', [CHR 0x0A]),
              (''com.example.beta'', [CHR 0x0A])]"
  let ?out = "join_cut ?ps []"
  have a: "execute_return_result mac_host ''pkgutil --pkgs'' (world (boot a_mac)) = (Inr ?out, a_mac)"
    by code_simp
  have b: "?out = join_cut ?ps [] \<and> well_cut ?ps []"
    by code_simp
  have c: "lines_of ?ps [] = [''com.apple.pkg.Core'', ''com.example.tool'', ''com.example.beta'']"
    by code_simp
  from list_returns_lines [OF a, of ?ps "[]", THEN conjunct1, THEN mp, OF b] c
  have 1: "list_pkgs mac_host (boot a_mac) =
     (Inr [''com.apple.pkg.Core'', ''com.example.tool'', ''com.example.beta''],
      \<lparr>world = a_mac, calls = [Exec_result ''pkgutil --pkgs'']\<rparr>)"
    by (simp add: boot_def)
  let ?qs = "[(''a'', [CHR 0x0D, CHR 0x0A]), (''b'', [CHR 0x85]), ([], [CHR 0x0A])]"
  let ?txt = "[CHR ''a'', CHR 0x0D, CHR 0x0A, CHR ''b'', CHR 0x85, CHR 0x0A, CHR ''c'']"
  have a': "execute_return_result (printing_host ?txt) ''pkgutil --pkgs'' (world (boot ()))
      = (Inr ?txt, ())"
    by (simp add: printing_host_def)
  have b': "?txt = join_cut ?qs ''c'' \<and> well_cut ?qs ''c''"
    by code_simp
  have c': "lines_of ?qs ''c'' = [''a'', ''b'', [], ''c'']"
    by code_simp
  from list_returns_lines [OF a', of ?qs "''c''", THEN conjunct1, THEN mp, OF b'] c'
  have 2: "list_pkgs (printing_host ?txt) (boot ()) =
     (Inr [''a'', ''b'', [], ''c''], \<lparr>world = (), calls = [Exec_result ''pkgutil --pkgs'']\<rparr>)"
    by (simp add: boot_def)
  from 1 2 show ?thesis by simp
qed

text \<open>
  Claim C3 as stated fails: on an output with two consecutive newlines the result
  contains the empty string.
\<close>

theorem list_keeps_empty_line_counterexample:
  "fst (list_pkgs (printing_host (''com.apple.pkg.Core'' @ [CHR 0x0A, CHR 0x0A] @ ''com.example.tool'' @ [CHR 0x0A])) (boot ()))
     = Inr [''com.apple.pkg.Core'', [], ''com.example.tool'']"
  by code_simp

text \<open>
  Claim C9, as amended. \<open>is_installed(p)\<close> is the membership test on what \<open>list_()\<close>
  returns: when the listing returns a sequence, the result is whether \<open>p\<close> is one of its
  elements (equality of strings), so \<open>False\<close> for an absent id; when the listing raises,
  \<open>is_installed\<close> raises the same error; and an error of \<open>is_installed\<close> is always
  the error of the listing, never one of its own.
\<close>

theorem is_installed_membership:
  assumes "list_pkgs h s = (r, s1)"
  shows "(r = Inr pkgs \<longrightarrow> is_installed h p s = (Inr (p \<in> set pkgs), s1)) \<and>
         (r = Inl e \<longrightarrow> is_installed h p s = (Inl e, s1)) \<and>
         (is_installed h p s = (Inl e, s1) \<longrightarrow> r = Inl e)"
  using assms by (cases r) (simp_all add: is_installed_def)

theorem is_installed_membership_witness:
  "is_installed mac_host ''com.example.tool'' (boot a_mac)
     = (Inr True, \<lparr>world = a_mac, calls = [Exec_result ''pkgutil --pkgs'']\<rparr>) \<and>
   is_installed mac_host ''com.example.too'' (boot a_mac)
     = (Inr False, \<lparr>world = a_mac, calls = [Exec_result ''pkgutil --pkgs'']\<rparr>) \<and>
   is_installed mac_host ''com.example.tool'' (boot (a_mac\<lparr>pkgutil_ok := False\<rparr>))
     = (Inl (CommandExecutionError ''Command Failed: pkgutil --pkgs''),
        \<lparr>world = a_mac\<lparr>pkgutil_ok := False\<rparr>, calls = [Exec_result ''pkgutil --pkgs'']\<rparr>)"
proof -
  let ?pkgs = "[''com.apple.pkg.Core'', ''com.example.tool'', ''com.example.beta'']"
  let ?s1 = "\<lparr>world = a_mac, calls = [Exec_result ''pkgutil --pkgs'']\<rparr>"
  let ?e = "CommandExecutionError ''Command Failed: pkgutil --pkgs''"
  let ?t1 = "\<lparr>world = a_mac\<lparr>pkgutil_ok := False\<rparr>, calls = [Exec_result ''pkgutil --pkgs'']\<rparr>"
  have a: "list_pkgs mac_host (boot a_mac) = (Inr ?pkgs, ?s1)"
    by code_simp
  have b: "list_pkgs mac_host (boot (a_mac\<lparr>pkgutil_ok := False\<rparr>)) = (Inl ?e, ?t1)"
    by code_simp
  from is_installed_membership [OF a, of ?pkgs "''com.example.tool''"]
  have 1: "is_installed mac_host ''com.example.tool'' (boot a_mac) = (Inr True, ?s1)"
    by simp
  from is_installed_membership [OF a, of ?pkgs "''com.example.too''"]
  have 2: "is_installed mac_host ''com.example.too'' (boot a_mac) = (Inr False, ?s1)"
    by simp
  from is_installed_membership [OF b, of _ "''com.example.tool''" ?e]
  have 3: "is_installed mac_host ''com.example.tool'' (boot (a_mac\<lparr>pkgutil_ok := False\<rparr>))
      = (Inl ?e, ?t1)"
    by simp
  from 1 2 3 show ?thesis by simp
qed

text \<open>
  Claim C9 as stated fails: on a machine whose \<^verbatim>\<open>pkgutil\<close> exits with a failure status
  the listing raises, and so does \<open>is_installed\<close>.
\<close>

theorem is_installed_raises_counterexample:
  "fst (is_installed mac_host ''com.apple.pkg.Core'' (boot (a_mac\<lparr>pkgutil_ok := False\<rparr>)))
     = Inl (CommandExecutionError ''Command Failed: pkgutil --pkgs'')"
  by code_simp

section \<open>Installation\<close>

text \<open>
  Claim C5. When \<open>p\<close> is already installed, \<open>install(source, p)\<close> returns \<open>True\<close>
  whatever \<open>source\<close> is, and leaves the machine and the journal as the installation check
  left them: the only call made is the listing, so the source is not parsed, the file
  system is not asked and the installer is not run.
\<close>

theorem install_short_circuit:
  assumes "is_installed h p s = (Inr True, s1)"
  shows "install h source p s = (Inr True, s1) \<and>
         calls s1 = calls s @ [Exec_result ''pkgutil --pkgs'']"
  using assms is_installed_journal [OF assms] by (simp add: install_def)

theorem install_short_circuit_witness:
  "is_installed mac_host ''com.apple.pkg.Core'' (boot a_mac)
     = (Inr True, \<lparr>world = a_mac, calls = [Exec_result ''pkgutil --pkgs'']\<rparr>) \<and>
   install mac_host ''http://example.com/pkg'' ''com.apple.pkg.Core'' (boot a_mac)
     = (Inr True, \<lparr>world = a_mac, calls = [Exec_result ''pkgutil --pkgs'']\<rparr>)"
proof -
  have a: "is_installed mac_host ''com.apple.pkg.Core'' (boot a_mac)
     = (Inr True, \<lparr>world = a_mac, calls = [Exec_result ''pkgutil --pkgs'']\<rparr>)"
    by code_simp
  from install_short_circuit [OF a] a show ?thesis by simp
qed

text \<open>
  Claim C1, as amended. When \<open>p\<close> is not installed and the URI scheme of \<open>source\<close> is
  not empty, \<open>install(source, p)\<close> fails with \<open>SaltInvocationError\<close> naming the scheme,
  after the listing call only.
\<close>

theorem install_rejects_scheme:
  assumes "is_installed h p s = (Inr False, s1)"
      and "urlparse_scheme h source = Inr scheme"
      and "scheme \<noteq> []"
  shows "install h source p s
           = (Inl (SaltInvocationError (''Unsupported scheme for source uri: '' @ scheme)), s1) \<and>
         calls s1 = calls s @ [Exec_result ''pkgutil --pkgs'']"
  using assms is_installed_journal [OF assms(1)] by (simp add: install_def)

theorem install_rejects_scheme_witness:
  "install mac_host ''http://example.com/pkg'' ''com.example.app'' (boot a_mac)
     = (Inl (SaltInvocationError ''Unsupported scheme for source uri: http''),
        \<lparr>world = a_mac, calls = [Exec_result ''pkgutil --pkgs'']\<rparr>)"
proof -
  have a: "is_installed mac_host ''com.example.app'' (boot a_mac)
     = (Inr False, \<lparr>world = a_mac, calls = [Exec_result ''pkgutil --pkgs'']\<rparr>)"
    by code_simp
  have b: "urlparse_scheme mac_host ''http://example.com/pkg'' = Inr ''http''"
    by code_simp
  have c: "''http'' \<noteq> []" by simp
  from install_rejects_scheme [OF a b c] show ?thesis by simp
qed

text \<open>
  Claim C1 as stated fails for a package that is already installed: the installation
  check comes first, and \<open>install\<close> returns \<open>True\<close> for an \<^verbatim>\<open>http\<close> source.
\<close>

theorem install_remote_installed_counterexample:
  "urlparse_scheme mac_host ''http://example.com/pkg'' = Inr ''http'' \<and>
   fst (install mac_host ''http://example.com/pkg'' ''com.apple.pkg.Core'' (boot a_mac)) = Inr True"
  by code_simp

text \<open>
  Claim C4. When \<open>p\<close> is not installed and the URI scheme of \<open>source\<close> is empty:
  if the path does not exist, \<open>install\<close> fails with \<open>SaltInvocationError\<close>
  (``File not found'') after the existence test; if it exists and the command
  \<^verbatim>\<open>installer -pkg <source> -target /\<close> reports a boolean \<open>b\<close>, the outcome of \<open>install\<close>
  is the outcome of \<open>is_installed(p)\<close> on the machine the installer left, whatever \<open>b\<close> is.
\<close>

theorem install_from_local_path:
  assumes "is_installed h p s = (Inr False, s1)"
      and "urlparse_scheme h source = Inr []"
  shows "(\<not> os_path_exists h source (world s1) \<longrightarrow>
            install h source p s
              = (Inl (SaltInvocationError (''File not found: '' @ source)),
                 \<lparr>world = world s1, calls = calls s1 @ [Path_exists source]\<rparr>)) \<and>
         (os_path_exists h source (world s1) \<and>
          execute_return_success h (''installer -pkg '' @ source @ '' -target /'') (world s1)
            = (Inr b, w2) \<longrightarrow>
            install h source p s
              = is_installed h p
                  \<lparr>world = w2,
                   calls = calls s1 @ [Path_exists source,
                     Exec_success (''installer -pkg '' @ source @ '' -target /'')]\<rparr>)"
  using assms
  by (simp add: install_def install_from_path_def path_exists_def run_success_def)

theorem install_from_local_path_witness:
  "install mac_host ''/tmp/missing.pkg'' ''com.example.app'' (boot a_mac)
     = (Inl (SaltInvocationError ''File not found: /tmp/missing.pkg''),
        \<lparr>world = a_mac,
         calls = [Exec_result ''pkgutil --pkgs'', Path_exists ''/tmp/missing.pkg'']\<rparr>) \<and>
   install mac_host ''/tmp/app.pkg'' ''com.example.app'' (boot a_mac)
     = is_installed mac_host ''com.example.app''
         \<lparr>world = a_mac\<lparr>receipts := receipts a_mac @ [(''com.example.app'', app_info)]\<rparr>,
          calls = [Exec_result ''pkgutil --pkgs'', Path_exists ''/tmp/app.pkg'',
                   Exec_success ''installer -pkg /tmp/app.pkg -target /'']\<rparr> \<and>
   fst (install mac_host ''/tmp/app.pkg'' ''com.example.app'' (boot a_mac)) = Inr True \<and>
   fst (install mac_host ''/tmp/app.pkg'' ''com.example.other'' (boot a_mac)) = Inr False"
proof -
  let ?s1 = "\<lparr>world = a_mac, calls = [Exec_result ''pkgutil --pkgs'']\<rparr>"
  have a: "is_installed mac_host ''com.example.app'' (boot a_mac) = (Inr False, ?s1)"
    by code_simp
  have b: "urlparse_scheme mac_host ''/tmp/missing.pkg'' = Inr []"
    by code_simp
  have c: "\<not> os_path_exists mac_host ''/tmp/missing.pkg'' (world ?s1)"
    by code_simp
  have b': "urlparse_scheme mac_host ''/tmp/app.pkg'' = Inr []"
    by code_simp
  have c': "os_path_exists mac_host ''/tmp/app.pkg'' (world ?s1)"
    by code_simp
  have d': "execute_return_success mac_host (''installer -pkg '' @ ''/tmp/app.pkg'' @ '' -target /'') (world ?s1)
      = (Inr True, a_mac\<lparr>receipts := receipts a_mac @ [(''com.example.app'', app_info)]\<rparr>)"
    by code_simp
  have e: "fst (install mac_host ''/tmp/app.pkg'' ''com.example.app'' (boot a_mac)) = Inr True"
    by code_simp
  have f: "fst (install mac_host ''/tmp/app.pkg'' ''com.example.other'' (boot a_mac)) = Inr False"
    by code_simp
  from install_from_local_path [OF a b] c
  have 1: "install mac_host ''/tmp/missing.pkg'' ''com.example.app'' (boot a_mac)
     = (Inl (SaltInvocationError ''File not found: /tmp/missing.pkg''),
        \<lparr>world = a_mac,
         calls = [Exec_result ''pkgutil --pkgs'', Path_exists ''/tmp/missing.pkg'']\<rparr>)"
    by simp
  from install_from_local_path [OF a b', of True "a_mac\<lparr>receipts := receipts a_mac @ [(''com.example.app'', app_info)]\<rparr>"] c' d'
  have 2: "install mac_host ''/tmp/app.pkg'' ''com.example.app'' (boot a_mac)
     = is_installed mac_host ''com.example.app''
         \<lparr>world = a_mac\<lparr>receipts := receipts a_mac @ [(''com.example.app'', app_info)]\<rparr>,
          calls = [Exec_result ''pkgutil --pkgs'', Path_exists ''/tmp/app.pkg'',
                   Exec_success ''installer -pkg /tmp/app.pkg -target /'']\<rparr>"
    by simp
  from 1 2 e f show ?thesis by simp
qed

section \<open>Package information\<close>

text \<open>
  Claim C6. When \<open>p\<close> is not installed, \<open>info(p)\<close> fails with
  \<open>SaltInvocationError\<close> and the message \<^verbatim>\<open>Package ID <p> is not installed\<close>;
  \<open>version(p)\<close> and \<open>install_time(p)\<close> fail with the same error; the only call made is
  the listing, so the package-info command is not run.
\<close>

theorem info_not_installed:
  assumes "is_installed h p s = (Inr False, s1)"
  shows "info h p s = (Inl (SaltInvocationError (''Package ID '' @ p @ '' is not installed'')), s1) \<and>
         version h p s = (Inl (SaltInvocationError (''Package ID '' @ p @ '' is not installed'')), s1) \<and>
         install_time h p convert s
           = (Inl (SaltInvocationError (''Package ID '' @ p @ '' is not installed'')), s1) \<and>
         calls s1 = calls s @ [Exec_result ''pkgutil --pkgs'']"
  using assms is_installed_journal [OF assms]
  by (simp add: info_def version_def install_time_def)

theorem info_not_installed_witness:
  "is_installed mac_host ''com.example.app'' (boot a_mac)
     = (Inr False, \<lparr>world = a_mac, calls = [Exec_result ''pkgutil --pkgs'']\<rparr>) \<and>
   info mac_host ''com.example.app'' (boot a_mac)
     = (Inl (SaltInvocationError ''Package ID com.example.app is not installed''),
        \<lparr>world = a_mac, calls = [Exec_result ''pkgutil --pkgs'']\<rparr>) \<and>
   version mac_host ''com.example.app'' (boot a_mac)
     = (Inl (SaltInvocationError ''Package ID com.example.app is not installed''),
        \<lparr>world = a_mac, calls = [Exec_result ''pkgutil --pkgs'']\<rparr>) \<and>
   install_time mac_host ''com.example.app'' None (boot a_mac)
     = (Inl (SaltInvocationError ''Package ID com.example.app is not installed''),
        \<lparr>world = a_mac, calls = [Exec_result ''pkgutil --pkgs'']\<rparr>)"
proof -
  have a: "is_installed mac_host ''com.example.app'' (boot a_mac)
     = (Inr False, \<lparr>world = a_mac, calls = [Exec_result ''pkgutil --pkgs'']\<rparr>)"
    by code_simp
  from info_not_installed [OF a, of None] a show ?thesis by simp
qed

text \<open>
  Claim C2, as amended. When \<open>p\<close> is installed and every line of the package-info
  command's output contains exactly one \<open>:\<close>, \<open>info(p)\<close> returns the mapping built line
  by line, in order, from the text before the \<open>:\<close> as key to the text after it as value
  (a later line overwrites an earlier one with the same key). Lines are cut at every
  \<open>:\<close>, not at the first one only.
\<close>

theorem info_parses_lines:
  assumes "is_installed h p s = (Inr True, s1)"
      and "execute_return_result h (''pkgutil --pkg-info '' @ p) (world s1) = (Inr out, w2)"
      and "\<forall>l\<in>set (splitlines out). count_list l CHR '':'' = 1"
  shows "info h p s =
           (Inr (foldl (\<lambda>d l. d(takeWhile (\<lambda>c. c \<noteq> CHR '':'') l
                                  \<mapsto> tl (dropWhile (\<lambda>c. c \<noteq> CHR '':'') l)))
                   Map.empty (splitlines out)),
            \<lparr>world = w2, calls = calls s1 @ [Exec_result (''pkgutil --pkg-info '' @ p)]\<rparr>)"
  using assms(1,2) dict_split_well_formed [OF assms(3)]
  by (simp add: info_def run_result_def)

theorem info_parses_lines_witness:
  "info mac_host ''com.apple.pkg.Core'' (boot a_mac) =
     (Inr (foldl (\<lambda>d l. d(takeWhile (\<lambda>c. c \<noteq> CHR '':'') l
                            \<mapsto> tl (dropWhile (\<lambda>c. c \<noteq> CHR '':'') l)))
             Map.empty
             [''package-id: com.apple.pkg.Core'', ''version: 10.11.6'',
              ''install-time: 1466026385'']),
      \<lparr>world = a_mac,
       calls = [Exec_result ''pkgutil --pkgs'',
                Exec_result ''pkgutil --pkg-info com.apple.pkg.Core'']\<rparr>) \<and>
   entry ''version'' (info mac_host ''com.apple.pkg.Core'' (boot a_mac))
     = Inr (Some '' 10.11.6'')"
proof -
  let ?s1 = "\<lparr>world = a_mac, calls = [Exec_result ''pkgutil --pkgs'']\<rparr>"
  have a: "is_installed mac_host ''com.apple.pkg.Core'' (boot a_mac) = (Inr True, ?s1)"
    by code_simp
  have b: "execute_return_result mac_host (''pkgutil --pkg-info '' @ ''com.apple.pkg.Core'') (world ?s1)
      = (Inr core_info, a_mac)"
    by code_simp
  have l: "splitlines core_info = [''package-id: com.apple.pkg.Core'', ''version: 10.11.6'',
              ''install-time: 1466026385'']"
    by code_simp
  have c: "\<forall>l\<in>set (splitlines core_info). count_list l CHR '':'' = 1"
    unfolding l by simp
  have d: "entry ''version'' (info mac_host ''com.apple.pkg.Core'' (boot a_mac))
     = Inr (Some '' 10.11.6'')"
    by code_simp
  from info_parses_lines [OF a b c] l d show ?thesis by simp
qed

text \<open>
  Claim C2 as stated fails on a line with two \<open>:\<close>: the line
  \<^verbatim>\<open>location: Volumes/Disk:Tools\<close> is not stored under the key \<open>location\<close>;
  \<open>info\<close> raises \<open>ValueError\<close> for the element of length 3.
\<close>

theorem info_first_colon_counterexample:
  "fst (is_installed mac_host ''com.example.tool'' (boot a_mac)) = Inr True \<and>
   ''location: Volumes/Disk:Tools'' \<in> set (splitlines tool_info) \<and>
   raised (info mac_host ''com.example.tool'' (boot a_mac))
     = Some (ValueError (DictUpdateLength 2 3))"
  by code_simp

text \<open>
  Claim C10. When \<open>p\<close> is installed and some line of the package-info command's
  output does not contain exactly one \<open>:\<close>, \<open>info(p)\<close> raises the \<open>ValueError\<close> of
  \<open>dict\<close> for an element whose length is not 2, and \<open>version(p)\<close> and
  \<open>install_time(p)\<close> raise the same error.
\<close>

theorem info_malformed_line:
  assumes "is_installed h p s = (Inr True, s1)"
      and "execute_return_result h (''pkgutil --pkg-info '' @ p) (world s1) = (Inr out, w2)"
      and "l \<in> set (splitlines out)"
      and "count_list l CHR '':'' \<noteq> 1"
      and "s2 = \<lparr>world = w2, calls = calls s1 @ [Exec_result (''pkgutil --pkg-info '' @ p)]\<rparr>"
  shows "\<exists>i n. n \<noteq> 2 \<and>
           info h p s = (Inl (ValueError (DictUpdateLength i n)), s2) \<and>
           version h p s = (Inl (ValueError (DictUpdateLength i n)), s2) \<and>
           install_time h p convert s = (Inl (ValueError (DictUpdateLength i n)), s2)"
proof -
  from dict_split_malformed [OF assms(3,4)] obtain i n where
    n: "n \<noteq> 2" and
    d: "dict (map (str_split CHR '':'') (splitlines out)) = Inl (ValueError (DictUpdateLength i n))"
    by blast
  from assms(1,2,5) d
  have "info h p s = (Inl (ValueError (DictUpdateLength i n)), s2)"
    by (simp add: info_def run_result_def)
  then have "version h p s = (Inl (ValueError (DictUpdateLength i n)), s2)"
    and "install_time h p convert s = (Inl (ValueError (DictUpdateLength i n)), s2)"
    by (simp_all add: version_def install_time_def)
  with n \<open>info h p s = _\<close> show ?thesis by blast
qed

theorem info_malformed_line_witness:
  "(\<exists>i n. n \<noteq> 2 \<and>
      info mac_host ''com.example.tool'' (boot a_mac)
        = (Inl (ValueError (DictUpdateLength i n)),
           \<lparr>world = a_mac,
            calls = [Exec_result ''pkgutil --pkgs'',
                     Exec_result ''pkgutil --pkg-info com.example.tool'']\<rparr>) \<and>
      version mac_host ''com.example.tool'' (boot a_mac)
        = (Inl (ValueError (DictUpdateLength i n)),
           \<lparr>world = a_mac,
            calls = [Exec_result ''pkgutil --pkgs'',
                     Exec_result ''pkgutil --pkg-info com.example.tool'']\<rparr>) \<and>
      install_time mac_host ''com.example.tool'' None (boot a_mac)
        = (Inl (ValueError (DictUpdateLength i n)),
           \<lparr>world = a_mac,
            calls = [Exec_result ''pkgutil --pkgs'',
                     Exec_result ''pkgutil --pkg-info com.example.tool'']\<rparr>))"
proof -
  let ?s1 = "\<lparr>world = a_mac, calls = [Exec_result ''pkgutil --pkgs'']\<rparr>"
  have a: "is_installed mac_host ''com.example.tool'' (boot a_mac) = (Inr True, ?s1)"
    by code_simp
  have b: "execute_return_result mac_host (''pkgutil --pkg-info '' @ ''com.example.tool'') (world ?s1)
      = (Inr tool_info, a_mac)"
    by code_simp
  have c: "''location: Volumes/Disk:Tools'' \<in> set (splitlines tool_info)"
    by code_simp
  have d: "count_list ''location: Volumes/Disk:Tools'' CHR '':'' \<noteq> 1"
    by code_simp
  from info_malformed_line [OF a b c d refl, of None] show ?thesis by simp
qed

section \<open>Installation time\<close>

text \<open>
  Claim C8, as amended. Let \<open>info(p)\<close> return a mapping whose \<open>install-time\<close> entry is
  \<open>v\<close>. If \<open>int(v)\<close> is \<open>n\<close>, then \<open>install_time(p)\<close> and \<open>install_time(p, False)\<close>
  return \<open>n\<close>, and \<open>install_time(p, True)\<close> returns the host's local time of \<open>n\<close>
  formatted with \<^verbatim>\<open>%Y-%m-%d %H:%M:%S\<close>. If \<open>int(v)\<close> raises, the error is a
  \<open>ValueError\<close> and \<open>install_time\<close> raises it. Here \<open>int\<close> reads whitespace, a sign
  and decimal digits as the number they write (within the interpreter's digit limit),
  and raises on a string with no digit or with a character that is not a digit,
  whitespace, a sign or an underscore. For a local time from the year 1000 on, the
  formatted string is the year in decimal and the other fields in two digits, and it
  has the shape \<^verbatim>\<open>YYYY-MM-DD hh:mm:ss\<close> exactly when the year is at most 9999.
\<close>

theorem install_time_outcome:
  assumes "entry ''install-time'' (info h p s) = Inr (Some v)"
      and "s1 = snd (info h p s)"
      and "lim = int_max_str_digits h"
  shows "(py_int lim v = Inr n \<longrightarrow>
            install_time h p None s = (Inr (IntV n), s1) \<and>
            install_time h p (Some False) s = (Inr (IntV n), s1) \<and>
            (time_localtime h n (world s1) = Inr tm \<longrightarrow>
               install_time h p (Some True) s = (Inr (StrV (strftime time_fmt tm)), s1))) \<and>
         (py_int lim v = Inl e \<longrightarrow>
            (e = ValueError (InvalidIntLiteral v) \<or>
             (\<exists>d. lim < d \<and> e = ValueError (ExceedsDigitLimit lim d))) \<and>
            install_time h p convert s = (Inl e, s1)) \<and>
         (list_all is_space pre \<and> list_all is_space post \<and> sg \<in> set [[], ''+'', ''-''] \<and>
          (lim = 0 \<or> k + length (show_nat m) \<le> max 640 lim) \<longrightarrow>
            py_int lim (pre @ sg @ replicate k CHR ''0'' @ show_nat m @ post)
              = Inr (if sg = ''-'' then - int m else int m)) \<and>
         ((\<exists>c\<in>set v. \<not> is_digit c \<and> \<not> is_space c \<and> c \<notin> set ''+-_'') \<or>
          \<not> (\<exists>c\<in>set v. is_digit c) \<longrightarrow> (\<exists>e'. py_int lim v = Inl e')) \<and>
         (clock_fields tm \<and> 1000 \<le> tm_year tm \<longrightarrow>
            strftime time_fmt tm =
              show_nat (nat (tm_year tm)) @ ''-'' @ two_digits (tm_mon tm) @ ''-''
                @ two_digits (tm_mday tm) @ '' '' @ two_digits (tm_hour tm) @ '':''
                @ two_digits (tm_min tm) @ '':'' @ two_digits (tm_sec tm) \<and>
            (ymd_hms (strftime time_fmt tm) \<longleftrightarrow> tm_year tm \<le> 9999) \<and>
            (tm_year tm \<le> 9999 \<longrightarrow>
               show_nat (nat (tm_year tm)) =
                 [digit_char (nat (tm_year tm) div 1000), digit_char (nat (tm_year tm) div 100),
                  digit_char (nat (tm_year tm) div 10), digit_char (nat (tm_year tm))]))"
proof -
  from assms(1,2) obtain pkginfo where i: "info h p s = (Inr pkginfo, s1)"
    and v: "pkginfo ''install-time'' = Some v"
    by (cases "info h p s"; cases "fst (info h p s)") (auto simp: entry_def)
  have 1: "install_time h p None s = (Inr (IntV n), s1)"
    and 2: "install_time h p (Some False) s = (Inr (IntV n), s1)" if "py_int lim v = Inr n"
    using i v that assms(3) by (simp_all add: install_time_def)
  have 3: "install_time h p (Some True) s = (Inr (StrV (strftime time_fmt tm)), s1)"
    if "py_int lim v = Inr n" "time_localtime h n (world s1) = Inr tm"
    using i v that assms(3) by (simp add: install_time_def)
  have 4: "install_time h p convert s = (Inl e, s1)" if "py_int lim v = Inl e"
    using i v that assms(3) by (simp add: install_time_def)
  have 5: "py_int lim (pre @ sg @ replicate k CHR ''0'' @ show_nat m @ post)
              = Inr (if sg = ''-'' then - int m else int m)"
    if "list_all is_space pre" "list_all is_space post" "sg \<in> set [[], ''+'', ''-'']"
       "lim = 0 \<or> k + length (show_nat m) \<le> max 640 lim"
    using that by (rule py_int_decimal)
  have 6: "\<exists>e'. py_int lim v = Inl e'"
    if "(\<exists>c\<in>set v. \<not> is_digit c \<and> \<not> is_space c \<and> c \<notin> set ''+-_'') \<or>
          \<not> (\<exists>c\<in>set v. is_digit c)"
    using that by (rule py_int_not_literal)
  note 7 = py_int_errors [of lim v e] strftime_from_1000 [of tm]
  show ?thesis
    apply (intro conjI impI)
    using 1 2 3 4 5 6 7 by blast+
qed

theorem install_time_outcome_witness:
  "install_time mac_host ''com.apple.pkg.Core'' None (boot a_mac)
     = (Inr (IntV 1466026385), snd (info mac_host ''com.apple.pkg.Core'' (boot a_mac))) \<and>
   install_time mac_host ''com.apple.pkg.Core'' (Some False) (boot a_mac)
     = (Inr (IntV 1466026385), snd (info mac_host ''com.apple.pkg.Core'' (boot a_mac))) \<and>
   install_time mac_host ''com.apple.pkg.Core'' (Some True) (boot a_mac)
     = (Inr (StrV ''2016-06-15 21:33:05''), snd (info mac_host ''com.apple.pkg.Core'' (boot a_mac))) \<and>
   ymd_hms ''2016-06-15 21:33:05'' \<and>
   install_time mac_host ''com.example.beta'' (Some True) (boot a_mac)
     = (Inl (ValueError (InvalidIntLiteral '' yesterday'')),
        snd (info mac_host ''com.example.beta'' (boot a_mac)))"
proof -
  let ?tm = "\<lparr>tm_year = 2016, tm_mon = 6, tm_mday = 15, tm_hour = 21, tm_min = 33, tm_sec = 5\<rparr>"
  let ?e = "ValueError (InvalidIntLiteral '' yesterday'')"
  have a: "entry ''install-time'' (info mac_host ''com.apple.pkg.Core'' (boot a_mac))
      = Inr (Some '' 1466026385'')"
    by code_simp
  have l: "4300 = int_max_str_digits mac_host"
    by code_simp
  have sp: "list_all is_space '' '' \<and> list_all is_space [] \<and> [] \<in> set [[], ''+'', ''-''] \<and>
      ((4300::nat) = 0 \<or> 0 + length (show_nat 1466026385) \<le> max 640 4300)"
    by (simp add: is_space_def show_nat.simps)
  have sn: "show_nat 1466026385 = ''1466026385''"
    by (simp add: show_nat.simps digit_char_def char_of_digits)
  have c: "time_localtime mac_host 1466026385
             (world (snd (info mac_host ''com.apple.pkg.Core'' (boot a_mac)))) = Inr ?tm"
    by code_simp
  have d: "clock_fields ?tm \<and> 1000 \<le> tm_year ?tm"
    by code_simp
  have f: "show_nat (nat (tm_year ?tm)) @ ''-'' @ two_digits (tm_mon ?tm) @ ''-''
             @ two_digits (tm_mday ?tm) @ '' '' @ two_digits (tm_hour ?tm) @ '':''
             @ two_digits (tm_min ?tm) @ '':'' @ two_digits (tm_sec ?tm) = ''2016-06-15 21:33:05''"
    by (simp add: show_nat.simps two_digits_def digit_char_def char_of_digits)
  have y: "tm_year ?tm \<le> 9999" by simp
  note t = install_time_outcome [OF a refl l, of 1466026385 ?tm ?e None "'' ''" "[]" "[]" 0 1466026385]
  note t1 = t [THEN conjunct1]
  note t3 = t [THEN conjunct2, THEN conjunct2, THEN conjunct1]
  note t5 = t [THEN conjunct2, THEN conjunct2, THEN conjunct2, THEN conjunct2]
  from t3 sp sn have b: "py_int 4300 '' 1466026385'' = Inr 1466026385"
    by simp
  from t5 d have "strftime time_fmt ?tm =
      show_nat (nat (tm_year ?tm)) @ ''-'' @ two_digits (tm_mon ?tm) @ ''-''
             @ two_digits (tm_mday ?tm) @ '' '' @ two_digits (tm_hour ?tm) @ '':''
             @ two_digits (tm_min ?tm) @ '':'' @ two_digits (tm_sec ?tm)"
    and "ymd_hms (strftime time_fmt ?tm) \<longleftrightarrow> tm_year ?tm \<le> 9999"
    by blast+
  with f y have g: "strftime time_fmt ?tm = ''2016-06-15 21:33:05''"
    and 4: "ymd_hms ''2016-06-15 21:33:05''"
    by simp_all
  from t1 b c g
  have 1: "install_time mac_host ''com.apple.pkg.Core'' None (boot a_mac)
     = (Inr (IntV 1466026385), snd (info mac_host ''com.apple.pkg.Core'' (boot a_mac)))"
    and 2: "install_time mac_host ''com.apple.pkg.Core'' (Some False) (boot a_mac)
     = (Inr (IntV 1466026385), snd (info mac_host ''com.apple.pkg.Core'' (boot a_mac)))"
    and 3: "install_time mac_host ''com.apple.pkg.Core'' (Some True) (boot a_mac)
     = (Inr (StrV ''2016-06-15 21:33:05''), snd (info mac_host ''com.apple.pkg.Core'' (boot a_mac)))"
    by simp_all
  have a': "entry ''install-time'' (info mac_host ''com.example.beta'' (boot a_mac))
      = Inr (Some '' yesterday'')"
    by code_simp
  have n': "(\<exists>c\<in>set '' yesterday''. \<not> is_digit c \<and> \<not> is_space c \<and> c \<notin> set ''+-_'') \<or>
          \<not> (\<exists>c\<in>set '' yesterday''. is_digit c)"
    by code_simp
  have b': "py_int 4300 '' yesterday'' = Inl ?e"
    by code_simp
  note t' = install_time_outcome [OF a' refl l, of 0 ?tm ?e "Some True" "[]" "[]" "[]" 0 0]
  note t2' = t' [THEN conjunct2, THEN conjunct1]
  note t4' = t' [THEN conjunct2, THEN conjunct2, THEN conjunct2, THEN conjunct1]
  from t4' n' have "\<exists>e'. py_int 4300 '' yesterday'' = Inl e'"
    by (rule mp)
  from t2' b'
  have 5: "install_time mac_host ''com.example.beta'' (Some True) (boot a_mac)
     = (Inl ?e, snd (info mac_host ''com.example.beta'' (boot a_mac)))"
    by blast
  from 1 2 3 4 5 show ?thesis by simp
qed

text \<open>
  Claim C8 as stated fails for a late time stamp: with the \<open>install-time\<close>
  253402300800, on a host in UTC, \<open>install_time(p, True)\<close> returns
  \<^verbatim>\<open>10000-01-01 00:00:00\<close>, which is not of the shape
  \<^verbatim>\<open>YYYY-MM-DD hh:mm:ss\<close>.
\<close>

theorem install_time_shape_counterexample:
  "entry ''install-time'' (info mac_host ''com.example.far'' (boot far_mac))
     = Inr (Some '' 253402300800'') \<and>
   fst (install_time mac_host ''com.example.far'' (Some True) (boot far_mac))
     = Inr (StrV ''10000-01-01 00:00:00'') \<and>
   \<not> ymd_hms ''10000-01-01 00:00:00''"
proof -
  let ?tm = "\<lparr>tm_year = 10000, tm_mon = 1, tm_mday = 1, tm_hour = 0, tm_min = 0, tm_sec = 0\<rparr>"
  have a: "entry ''install-time'' (info mac_host ''com.example.far'' (boot far_mac))
      = Inr (Some '' 253402300800'')"
    by code_simp
  have b: "py_int (int_max_str_digits mac_host) '' 253402300800'' = Inr 253402300800"
    by code_simp
  have c: "time_localtime mac_host 253402300800
             (world (snd (info mac_host ''com.example.far'' (boot far_mac)))) = Inr ?tm"
    by code_simp
  have d: "strftime time_fmt ?tm = ''10000-01-01 00:00:00''"
    by (simp add: strftime_fields clock_fields_def show_int_def show_nat.simps two_digits_def
        digit_char_def char_of_digits)
  have e: "\<not> ymd_hms ''10000-01-01 00:00:00''"
    by code_simp
  from install_time_converted [OF a b c] a d e show ?thesis by simp
qed

section \<open>Forgetting a receipt\<close>

text \<open>
  Claim C7. \<open>forget(p)\<close> first runs \<^verbatim>\<open>pkgutil --forget <p>\<close>. If the command raises,
  that error is the outcome. If it reports a boolean, whichever, the outcome is that of
  the installation check made afterwards, negated: \<open>True\<close> iff \<open>p\<close> is not listed any
  more, or the error the check raised. \<open>forget\<close> has no error of its own; for an id
  that the listing made afterwards does not contain, the result is \<open>True\<close>.
\<close>

theorem forget_outcome:
  assumes "execute_return_success h (''pkgutil --forget '' @ p) (world s) = (r, w1)"
      and "s1 = \<lparr>world = w1, calls = calls s @ [Exec_success (''pkgutil --forget '' @ p)]\<rparr>"
  shows "(r = Inl e \<longrightarrow> forget h p s = (Inl e, s1)) \<and>
         (r = Inr b \<and> is_installed h p s1 = (Inr inst, s2) \<longrightarrow>
            forget h p s = (Inr (\<not> inst), s2)) \<and>
         (r = Inr b \<and> is_installed h p s1 = (Inl e, s2) \<longrightarrow> forget h p s = (Inl e, s2)) \<and>
         (r = Inr b \<and> list_pkgs h s1 = (Inr pkgs, s2) \<and> p \<notin> set pkgs \<longrightarrow>
            forget h p s = (Inr True, s2))"
  using assms
  by (simp add: forget_def run_success_def is_installed_def)

theorem forget_outcome_witness:
  "forget mac_host ''com.example.beta'' (boot a_mac)
     = (Inr True,
        \<lparr>world = a_mac\<lparr>receipts := [(''com.apple.pkg.Core'', core_info), (''com.example.tool'', tool_info)]\<rparr>,
         calls = [Exec_success ''pkgutil --forget com.example.beta'', Exec_result ''pkgutil --pkgs'']\<rparr>) \<and>
   forget mac_host ''com.example.none'' (boot a_mac)
     = (Inr True,
        \<lparr>world = a_mac,
         calls = [Exec_success ''pkgutil --forget com.example.none'', Exec_result ''pkgutil --pkgs'']\<rparr>) \<and>
   forget mac_host ''com.example.beta'' (boot (a_mac\<lparr>pkgutil_ok := False\<rparr>))
     = (Inl (CommandExecutionError ''Command Failed: pkgutil --pkgs''),
        \<lparr>world = a_mac\<lparr>pkgutil_ok := False\<rparr>,
         calls = [Exec_success ''pkgutil --forget com.example.beta'', Exec_result ''pkgutil --pkgs'']\<rparr>) \<and>
   forget mac_host ''com.example.beta'' (boot (a_mac\<lparr>pkgutil_ok := False, strict := True\<rparr>))
     = (Inl (CommandExecutionError ''Command Failed: pkgutil --forget com.example.beta''),
        \<lparr>world = a_mac\<lparr>pkgutil_ok := False, strict := True\<rparr>,
         calls = [Exec_success ''pkgutil --forget com.example.beta'']\<rparr>)"
proof -
  let ?w1 = "a_mac\<lparr>receipts := [(''com.apple.pkg.Core'', core_info), (''com.example.tool'', tool_info)]\<rparr>"
  let ?s1 = "\<lparr>world = ?w1, calls = calls (boot a_mac) @ [Exec_success (''pkgutil --forget '' @ ''com.example.beta'')]\<rparr>"
  let ?s2 = "\<lparr>world = ?w1, calls = [Exec_success ''pkgutil --forget com.example.beta'', Exec_result ''pkgutil --pkgs'']\<rparr>"
  have a1: "execute_return_success mac_host (''pkgutil --forget '' @ ''com.example.beta'') (world (boot a_mac))
      = (Inr True, ?w1)"
    by code_simp
  have b1: "is_installed mac_host ''com.example.beta'' ?s1 = (Inr False, ?s2)"
    by code_simp
  from forget_outcome [OF a1 refl, of _ True False ?s2] b1
  have 1: "forget mac_host ''com.example.beta'' (boot a_mac) = (Inr True, ?s2)"
    by simp
  let ?t1 = "\<lparr>world = a_mac, calls = calls (boot a_mac) @ [Exec_success (''pkgutil --forget '' @ ''com.example.none'')]\<rparr>"
  let ?t2 = "\<lparr>world = a_mac, calls = [Exec_success ''pkgutil --forget com.example.none'', Exec_result ''pkgutil --pkgs'']\<rparr>"
  have a2: "execute_return_success mac_host (''pkgutil --forget '' @ ''com.example.none'') (world (boot a_mac))
      = (Inr False, a_mac)"
    by code_simp
  have b2: "list_pkgs mac_host ?t1
      = (Inr [''com.apple.pkg.Core'', ''com.example.tool'', ''com.example.beta''], ?t2)"
    by code_simp
  have c2: "''com.example.none'' \<notin> set [''com.apple.pkg.Core'', ''com.example.tool'', ''com.example.beta'']"
    by simp
  from forget_outcome [OF a2 refl, of _ False _ ?t2 "[''com.apple.pkg.Core'', ''com.example.tool'', ''com.example.beta'']"] b2 c2
  have 2: "forget mac_host ''com.example.none'' (boot a_mac) = (Inr True, ?t2)"
    by simp
  let ?bw = "a_mac\<lparr>pkgutil_ok := False\<rparr>"
  let ?u1 = "\<lparr>world = ?bw, calls = calls (boot ?bw) @ [Exec_success (''pkgutil --forget '' @ ''com.example.beta'')]\<rparr>"
  let ?u2 = "\<lparr>world = ?bw, calls = [Exec_success ''pkgutil --forget com.example.beta'', Exec_result ''pkgutil --pkgs'']\<rparr>"
  have a3: "execute_return_success mac_host (''pkgutil --forget '' @ ''com.example.beta'') (world (boot ?bw))
      = (Inr False, ?bw)"
    by code_simp
  have b3: "is_installed mac_host ''com.example.beta'' ?u1
      = (Inl (CommandExecutionError ''Command Failed: pkgutil --pkgs''), ?u2)"
    by code_simp
  from forget_outcome [OF a3 refl, of "CommandExecutionError ''Command Failed: pkgutil --pkgs''" False _ ?u2] b3
  have 3: "forget mac_host ''com.example.beta'' (boot ?bw)
      = (Inl (CommandExecutionError ''Command Failed: pkgutil --pkgs''), ?u2)"
    by simp
  let ?sw = "a_mac\<lparr>pkgutil_ok := False, strict := True\<rparr>"
  have a4: "execute_return_success mac_host (''pkgutil --forget '' @ ''com.example.beta'') (world (boot ?sw))
      = (Inl (CommandExecutionError ''Command Failed: pkgutil --forget com.example.beta''), ?sw)"
    by code_simp
  from forget_outcome [OF a4 refl, of "CommandExecutionError ''Command Failed: pkgutil --forget com.example.beta''"]
  have 4: "forget mac_host ''com.example.beta'' (boot ?sw)
      = (Inl (CommandExecutionError ''Command Failed: pkgutil --forget com.example.beta''),
         \<lparr>world = ?sw, calls = [Exec_success ''pkgutil --forget com.example.beta'']\<rparr>)"
    by (simp add: boot_def)
  from 1 2 3 4 show ?thesis by simp
qed

end
